theory Spec2Isabelle
  imports Main "HOL-Library.Sublist"
begin

section \<open>JavaScript strings and the regular expressions the adapter builds\<close>

text \<open>
  A JavaScript string is a sequence of UTF-16 code units. The development models it as a
  \<^typ>\<open>string\<close>, read as the code units 0 to 255 (ASCII and the Latin-1 block); every
  classification below is the ECMAScript one restricted to that range.
\<close>

definition backslash :: char where
  "backslash = CHR 0x5C"

definition dquote :: char where
  "dquote = CHR 0x22"

definition squote :: char where
  "squote = CHR 0x27"

text \<open>WhiteSpace and LineTerminator code units, the ones \<open>String.prototype.trim\<close> strips.\<close>

definition is_white_space :: "char \<Rightarrow> bool" where
  "is_white_space c = (of_char c \<in> {9, 10, 11, 12, 13, 32, 160 :: nat})"

text \<open>LineTerminator: what \<open>.\<close> does not match without the \<open>s\<close> flag.\<close>

definition line_terminator :: "char \<Rightarrow> bool" where
  "line_terminator c = (of_char c \<in> {10, 13 :: nat})"

text \<open>The word characters of \<open>\b\<close>: letters, digits and the underscore, ASCII only.\<close>

definition is_word_char :: "char \<Rightarrow> bool" where
  "is_word_char c =
     (let n = of_char c :: nat
      in (48 \<le> n \<and> n \<le> 57) \<or> (65 \<le> n \<and> n \<le> 90) \<or> (97 \<le> n \<and> n \<le> 122) \<or> n = 95)"

text \<open>
  Canonicalize of a pattern with the \<open>i\<close> flag and without the \<open>u\<close> flag: the upper-case
  mapping of the code unit when that is a single code unit. Inside the range modelled, the
  micro sign and y with diaeresis map outside it and sharp s maps to two code units, so each
  of them only equals itself.
\<close>

definition canonicalize :: "char \<Rightarrow> char" where
  "canonicalize c =
     (let n = of_char c :: nat
      in if 97 \<le> n \<and> n \<le> 122 then char_of (n - 32)
         else if 224 \<le> n \<and> n \<le> 254 \<and> n \<noteq> 247 then char_of (n - 32)
         else c)"

definition trim :: "string \<Rightarrow> string" where
  "trim s = rev (dropWhile is_white_space (rev (dropWhile is_white_space s)))"

text \<open>
  The fragment of the pattern language the adapter uses: the assertions \<open>^\<close> and \<open>\b\<close>,
  literal code units, and \<open>.*\<close> (the capture group of \<open>/<\/(.*)>/\<close> only records).
\<close>

datatype regex_item = Bol | Lit char | WordB | DotStar

record regex =
  items :: "regex_item list"
  ignoreCase :: bool

datatype js_error =
    TypeError
  | SyntaxError
  | ServiceError "nat option"

text \<open>The \<open>statusCode\<close> property of a thrown value; native errors have none.\<close>

fun statusCode :: "js_error \<Rightarrow> nat option" where
  "statusCode (ServiceError c) = c"
| "statusCode _ = None"

definition syntax_char :: "char \<Rightarrow> bool" where
  "syntax_char c = (c \<in> set ''^$.*+?()[]{}|'' \<or> c = backslash)"

text \<open>
  Reading a pattern source of the fragment: \<open>^\<close>, \<open>\b\<close>, a backslash before a syntax
  character (an identity escape), and any other code unit that is not a syntax character.
\<close>

fun parse_pattern :: "string \<Rightarrow> regex_item list option" where
  "parse_pattern [] = Some []"
| "parse_pattern [c] =
     (if c = CHR ''^'' then Some [Bol]
      else if syntax_char c then None
      else Some [Lit c])"
| "parse_pattern (c # d # cs) =
     (if c = backslash then
        (if d = CHR ''b'' then map_option ((#) WordB) (parse_pattern cs)
         else if syntax_char d then map_option ((#) (Lit d)) (parse_pattern cs)
         else None)
      else if c = CHR ''^'' then map_option ((#) Bol) (parse_pattern (d # cs))
      else if syntax_char c then None
      else map_option ((#) (Lit c)) (parse_pattern (d # cs)))"

text \<open>
  \<open>new RegExp(source, flags)\<close>. A source outside the fragment is answered like an invalid
  one; \<open>ensureMentionPrefix\<close> never builds one (lemmas \<open>mention_pattern_parses\<close>,
  \<open>bare_pattern_parses\<close> and \<open>ensureMentionPrefix_returns\<close>).
\<close>

definition RegExp_new :: "string \<Rightarrow> bool \<Rightarrow> js_error + regex" where
  "RegExp_new source ic =
     (case parse_pattern source of
        None \<Rightarrow> Inl SyntaxError
      | Some its \<Rightarrow> Inr \<lparr>items = its, ignoreCase = ic\<rparr>)"

definition char_matches :: "bool \<Rightarrow> char \<Rightarrow> char \<Rightarrow> bool" where
  "char_matches ic a b = (if ic then canonicalize a = canonicalize b else a = b)"

text \<open>IsWordChar at an index; false before the start and at the end of the input.\<close>

definition word_boundary :: "string \<Rightarrow> nat \<Rightarrow> bool" where
  "word_boundary s i =
     ((0 < i \<and> is_word_char (s ! (i - 1))) \<noteq> (i < length s \<and> is_word_char (s ! i)))"

fun first_some :: "'a option list \<Rightarrow> 'a option" where
  "first_some [] = None"
| "first_some (None # xs) = first_some xs"
| "first_some (Some x # xs) = Some x"

text \<open>
  Matching the items at index \<open>i\<close> of the input: the end index of the match. \<open>.*\<close> is
  greedy and backtracks from the longest run of code units that are not line terminators.
\<close>

fun match_at :: "bool \<Rightarrow> regex_item list \<Rightarrow> string \<Rightarrow> nat \<Rightarrow> nat option" where
  "match_at ic [] s i = Some i"
| "match_at ic (Bol # ps) s i = (if i = 0 then match_at ic ps s i else None)"
| "match_at ic (Lit c # ps) s i =
     (if i < length s \<and> char_matches ic (s ! i) c then match_at ic ps s (Suc i) else None)"
| "match_at ic (WordB # ps) s i = (if word_boundary s i then match_at ic ps s i else None)"
| "match_at ic (DotStar # ps) s i =
     first_some (map (\<lambda>j. match_at ic ps s j)
       (rev [i ..< Suc (i + length (takeWhile (\<lambda>c. \<not> line_terminator c) (drop i s)))]))"

text \<open>\<open>RegExp.prototype.exec\<close> without the \<open>g\<close> flag: the leftmost match, from index 0.\<close>

definition RegExp_exec :: "regex \<Rightarrow> string \<Rightarrow> (nat \<times> nat) option" where
  "RegExp_exec re s =
     first_some (map (\<lambda>i. map_option (Pair i) (match_at (ignoreCase re) (items re) s i))
       [0 ..< Suc (length s)])"

definition RegExp_test :: "regex \<Rightarrow> string \<Rightarrow> bool" where
  "RegExp_test re s = (RegExp_exec re s \<noteq> None)"

text \<open>
  GetSubstitution for a pattern without capture groups: \<open>$$\<close>, \<open>$&\<close>, \<open>$`\<close> and \<open>$'\<close> are
  replaced, every other code unit of the template stands for itself.
\<close>

fun GetSubstitution :: "string \<Rightarrow> string \<Rightarrow> string \<Rightarrow> string \<Rightarrow> string" where
  "GetSubstitution [] matched pre post = []"
| "GetSubstitution [c] matched pre post = [c]"
| "GetSubstitution (c # d # t) matched pre post =
     (if c = CHR ''$'' \<and> d = CHR ''$'' then CHR ''$'' # GetSubstitution t matched pre post
      else if c = CHR ''$'' \<and> d = CHR ''&'' then matched @ GetSubstitution t matched pre post
      else if c = CHR ''$'' \<and> d = CHR ''`'' then pre @ GetSubstitution t matched pre post
      else if c = CHR ''$'' \<and> d = squote then post @ GetSubstitution t matched pre post
      else c # GetSubstitution (d # t) matched pre post)"

text \<open>\<open>String.prototype.replace\<close> with a pattern without the \<open>g\<close> flag and a string template.\<close>

definition String_replace :: "string \<Rightarrow> regex \<Rightarrow> string \<Rightarrow> string" where
  "String_replace s re template =
     (case RegExp_exec re s of
        None \<Rightarrow> s
      | Some (i, e) \<Rightarrow>
          take i s @ GetSubstitution template (take (e - i) (drop i s)) (take i s) (drop e s)
            @ drop e s)"

section \<open>The mention normalizer\<close>

text \<open>\<open>#escapeRegex\<close>: \<open>value.replace(/[.*+?^${}()|[\]\\]/g, '\\$&')\<close>.\<close>

definition escapeRegex :: "string \<Rightarrow> string" where
  "escapeRegex v =
     concat (map (\<lambda>c. if c \<in> set ''.*+?^${}()|[]'' \<or> c = backslash then [backslash, c] else [c]) v)"

text \<open>
  \<open>#ensureMentionPrefix(text, robotName)\<close>. \<open>None\<close> is \<open>undefined\<close> or \<open>null\<close>; a falsy
  robot name is a nullish one or the empty string.
\<close>

definition ensureMentionPrefix :: "string option \<Rightarrow> string option \<Rightarrow> js_error + string option" where
  "ensureMentionPrefix text robotName =
     (case robotName of
        None \<Rightarrow> Inr (map_option trim text)
      | Some name \<Rightarrow>
          if name = [] then Inr (map_option trim text)
          else
            let trimmed = trim (case text of None \<Rightarrow> [] | Some t \<Rightarrow> t)
            in if trimmed = [] then Inr (Some (CHR ''@'' # name))
               else
                 (case RegExp_new (''^@'' @ escapeRegex name @ [backslash, CHR ''b'']) True of
                    Inl e \<Rightarrow> Inl e
                  | Inr mentionPattern \<Rightarrow>
                      if RegExp_test mentionPattern trimmed
                      then Inr (Some (String_replace trimmed mentionPattern (CHR ''@'' # name)))
                      else
                        (case RegExp_new (''^'' @ escapeRegex name @ [backslash, CHR ''b'']) True of
                           Inl e \<Rightarrow> Inl e
                         | Inr barePattern \<Rightarrow>
                             if RegExp_test barePattern trimmed
                             then Inr (Some (String_replace trimmed barePattern (CHR ''@'' # name)))
                             else Inr (Some (CHR ''@'' # name @ '' '' @ trimmed)))))"

section \<open>\<open>JSON.parse\<close>\<close>

text \<open>
  \<open>JSON.parse\<close> follows the JSON grammar of ECMA-404: the text is split into tokens, and a
  stack machine reads one value from them. The value keeps number and string literals as
  they are written; the adapter only wraps it, so nothing depends on more than that.
\<close>

datatype json =
    JNull
  | JBool bool
  | JNumber string
  | JString string
  | JArray "json list"
  | JObject "(string \<times> json) list"

datatype json_token =
    TLBrace | TRBrace | TLBracket | TRBracket | TColon | TComma
  | TString string | TNumber string | TTrue | TFalse | TNull

definition json_ws :: "char \<Rightarrow> bool" where
  "json_ws c = (of_char c \<in> {9, 10, 13, 32 :: nat})"

definition is_digit :: "char \<Rightarrow> bool" where
  "is_digit c = (48 \<le> (of_char c :: nat) \<and> (of_char c :: nat) \<le> 57)"

definition is_hex :: "char \<Rightarrow> bool" where
  "is_hex c =
     (let n = of_char c :: nat
      in (48 \<le> n \<and> n \<le> 57) \<or> (65 \<le> n \<and> n \<le> 70) \<or> (97 \<le> n \<and> n \<le> 102))"

text \<open>
  The number of code units of a string literal after its opening quote and before its
  closing one: no control characters, and a backslash only before one of
  \<open>" \ / b f n r t\<close> or before \<open>u\<close> and four hexadecimal digits.
\<close>

fun string_body :: "string \<Rightarrow> nat option" where
  "string_body [] = None"
| "string_body (c # cs) =
     (if c = dquote then Some 0
      else if c = backslash then
        (case cs of
           [] \<Rightarrow> None
         | e # cs' \<Rightarrow>
             if e \<in> set [dquote, backslash, CHR ''/'', CHR ''b'', CHR ''f'', CHR ''n'', CHR ''r'', CHR ''t'']
               then map_option (\<lambda>n. n + 2) (string_body cs')
             else if e = CHR ''u'' \<and> 4 \<le> length cs' \<and> list_all is_hex (take 4 cs')
               then map_option (\<lambda>n. n + 2) (string_body cs')
             else None)
      else if (of_char c :: nat) < 32 then None
      else map_option Suc (string_body cs))"

definition digits_length :: "string \<Rightarrow> nat" where
  "digits_length s = length (takeWhile is_digit s)"

text \<open>
  The length of the number literal a text starts with:
  \<open>-? (0 | [1-9][0-9]*) (. [0-9]+)? ([eE] [+-]? [0-9]+)?\<close>.
\<close>

definition fraction_length :: "string \<Rightarrow> nat option" where
  "fraction_length s =
     (case s of
        [] \<Rightarrow> Some 0
      | c # r \<Rightarrow>
          if c = CHR ''.'' then (if digits_length r = 0 then None else Some (Suc (digits_length r)))
          else Some 0)"

definition exponent_length :: "string \<Rightarrow> nat option" where
  "exponent_length s =
     (case s of
        [] \<Rightarrow> Some 0
      | c # r \<Rightarrow>
          if c = CHR ''e'' \<or> c = CHR ''E'' then
            (let sg = (case r of [] \<Rightarrow> 0 | d # _ \<Rightarrow> if d = CHR ''+'' \<or> d = CHR ''-'' then 1 else 0);
                 n = digits_length (drop sg r)
             in if n = 0 then None else Some (Suc (sg + n)))
          else Some 0)"

definition number_length :: "string \<Rightarrow> nat option" where
  "number_length s =
     (let sg = (case s of [] \<Rightarrow> 0 | c # _ \<Rightarrow> if c = CHR ''-'' then 1 else 0);
          s1 = drop sg s;
          il = (case s1 of [] \<Rightarrow> 0 | c # _ \<Rightarrow> if c = CHR ''0'' then 1 else digits_length s1)
      in if il = 0 then None
         else
           (case fraction_length (drop il s1) of
              None \<Rightarrow> None
            | Some fl \<Rightarrow>
                (case exponent_length (drop (il + fl) s1) of
                   None \<Rightarrow> None
                 | Some el \<Rightarrow> Some (sg + il + fl + el))))"

function json_lex :: "string \<Rightarrow> json_token list option" where
  "json_lex [] = Some []"
| "json_lex (c # cs) =
     (if json_ws c then json_lex cs
      else if c = CHR ''{'' then map_option ((#) TLBrace) (json_lex cs)
      else if c = CHR ''}'' then map_option ((#) TRBrace) (json_lex cs)
      else if c = CHR ''['' then map_option ((#) TLBracket) (json_lex cs)
      else if c = CHR '']'' then map_option ((#) TRBracket) (json_lex cs)
      else if c = CHR '':'' then map_option ((#) TColon) (json_lex cs)
      else if c = CHR '','' then map_option ((#) TComma) (json_lex cs)
      else if c = dquote then
        (case string_body cs of
           None \<Rightarrow> None
         | Some n \<Rightarrow> map_option ((#) (TString (take n cs))) (json_lex (drop (Suc n) cs)))
      else if c = CHR ''-'' \<or> is_digit c then
        (case number_length (c # cs) of
           None \<Rightarrow> None
         | Some n \<Rightarrow> map_option ((#) (TNumber (take n (c # cs)))) (json_lex (drop (n - 1) cs)))
      else if take 4 (c # cs) = ''true'' then map_option ((#) TTrue) (json_lex (drop 3 cs))
      else if take 5 (c # cs) = ''false'' then map_option ((#) TFalse) (json_lex (drop 4 cs))
      else if take 4 (c # cs) = ''null'' then map_option ((#) TNull) (json_lex (drop 3 cs))
      else None)"
  by pat_completeness auto
termination
  by (relation "measure length") auto

text \<open>
  The stack machine. A frame is an array or an object under construction (its members in
  reverse) or a member name waiting for its value.
\<close>

datatype json_frame =
    FArray "json list"
  | FObject "(string \<times> json) list"
  | FKey string

datatype json_mode =
    MValue | MArrayStart | MObjectStart | MKey | MColon | MAfter | MDone json

fun json_complete :: "json \<Rightarrow> json_frame list \<Rightarrow> (json_mode \<times> json_frame list) option" where
  "json_complete v [] = Some (MDone v, [])"
| "json_complete v (FArray vs # st) = Some (MAfter, FArray (v # vs) # st)"
| "json_complete v (FKey k # FObject ms # st) = Some (MAfter, FObject ((k, v) # ms) # st)"
| "json_complete v _ = None"

fun json_value :: "json_token \<Rightarrow> json_frame list \<Rightarrow> (json_mode \<times> json_frame list) option" where
  "json_value (TString s) st = json_complete (JString s) st"
| "json_value (TNumber n) st = json_complete (JNumber n) st"
| "json_value TTrue st = json_complete (JBool True) st"
| "json_value TFalse st = json_complete (JBool False) st"
| "json_value TNull st = json_complete JNull st"
| "json_value TLBracket st = Some (MArrayStart, FArray [] # st)"
| "json_value TLBrace st = Some (MObjectStart, FObject [] # st)"
| "json_value _ st = None"

fun json_step :: "json_mode \<times> json_frame list \<Rightarrow> json_token \<Rightarrow> (json_mode \<times> json_frame list) option" where
  "json_step (MValue, st) t = json_value t st"
| "json_step (MArrayStart, FArray vs # st) TRBracket = json_complete (JArray (rev vs)) st"
| "json_step (MArrayStart, st) t = json_value t st"
| "json_step (MObjectStart, FObject ms # st) TRBrace = json_complete (JObject (rev ms)) st"
| "json_step (MObjectStart, st) (TString k) = Some (MColon, FKey k # st)"
| "json_step (MKey, st) (TString k) = Some (MColon, FKey k # st)"
| "json_step (MColon, st) TColon = Some (MValue, st)"
| "json_step (MAfter, FArray vs # st) TComma = Some (MValue, FArray vs # st)"
| "json_step (MAfter, FArray vs # st) TRBracket = json_complete (JArray (rev vs)) st"
| "json_step (MAfter, FObject ms # st) TComma = Some (MKey, FObject ms # st)"
| "json_step (MAfter, FObject ms # st) TRBrace = json_complete (JObject (rev ms)) st"
| "json_step _ _ = None"

fun json_run :: "json_mode \<times> json_frame list \<Rightarrow> json_token list \<Rightarrow> (json_mode \<times> json_frame list) option" where
  "json_run q [] = Some q"
| "json_run q (t # ts) = (case json_step q t of None \<Rightarrow> None | Some q' \<Rightarrow> json_run q' ts)"

text \<open>\<open>JSON.parse(text)\<close>: the value, or the SyntaxError it throws.\<close>

definition JSON_parse :: "string \<Rightarrow> js_error + json" where
  "JSON_parse s =
     (case json_lex s of
        None \<Rightarrow> Inl SyntaxError
      | Some ts \<Rightarrow>
          (case json_run (MValue, []) ts of
             Some (MDone v, []) \<Rightarrow> Inr v
           | _ \<Rightarrow> Inl SyntaxError))"

section \<open>The platform boundary\<close>

text \<open>
  What the adapter hands to the platform SDK. \<open>MessageFactory.text(text, speak)\<close> builds a
  message activity and sets \<open>speak\<close> only when it is truthy; \<open>CardFactory.adaptiveCard(card)\<close>
  wraps a card as one attachment.
\<close>

datatype text_format = Markdown | Plain | Xml

record message_activity =
  msg_text :: string
  msg_speak :: "string option"
  textFormat :: "text_format option"

record attachment =
  contentType :: string
  content :: json

datatype outgoing =
    MessageActivity message_activity
  | AttachmentsActivity "attachment list"
  | TextOnly string

definition MessageFactory_text :: "string \<Rightarrow> string option \<Rightarrow> message_activity" where
  "MessageFactory_text t sp =
     \<lparr>msg_text = t,
      msg_speak = (case sp of None \<Rightarrow> None | Some x \<Rightarrow> if x = [] then None else Some x),
      textFormat = None\<rparr>"

definition CardFactory_adaptiveCard :: "json \<Rightarrow> attachment" where
  "CardFactory_adaptiveCard c =
     \<lparr>contentType = ''application/vnd.microsoft.card.adaptive'', content = c\<rparr>"

datatype resource_response = ResourceResponse string

record conversation_account =
  conversation_id :: string

record inbound_activity =
  conversation :: conversation_account
  activity_text :: "string option"

record turn_context =
  activity :: inbound_activity

record channel_info =
  channel_id :: string

record channel_data =
  channel :: channel_info

record teams_room =
  channelData :: channel_data

record hubot_user =
  message :: "turn_context option"

record envelope =
  room :: "teams_room option"
  user :: "hubot_user option"

text \<open>
  What a read of the cache can give: the reference \<open>TurnContext.getConversationReference\<close>
  derives from an inbound activity, the conversation account the creation callback stores,
  or, the cache being a plain object, a value it inherits: a member of \<open>Object.prototype\<close>,
  or a property of an object that has become its prototype.
\<close>

datatype conversation_reference =
    FromActivity inbound_activity
  | FromConversation conversation_account
  | PrototypeMember string
  | PropertyOf conversation_reference string

record conversation_parameters =
  isGroup :: bool
  bot :: "string option \<times> string"
  cp_serviceUrl :: string
  cp_channelData :: channel_data
  cp_activity :: message_activity
  tenantId :: "string option"

record create_request =
  botAppId :: "string option"
  channelId :: string
  cr_serviceUrl :: string
  audience :: "string option"
  conversationParameters :: conversation_parameters

record request =
  body :: inbound_activity

datatype platform_call =
    CreateConversation create_request
  | ContinueConversation conversation_reference
  | Process request
  | SendActivity turn_context outgoing

text \<open>
  The platform client and the turn handles are collaborators outside the repository. Each
  entry point is a function of the calls made so far and of its arguments. \<open>Inl e\<close>: the call
  throws \<open>e\<close>. For \<open>createConversationAsync\<close>, \<open>continueConversation\<close> and \<open>process\<close>,
  \<open>Inr context\<close>: the platform runs the callback it was given once, on \<open>context\<close>, and the
  call returns when the callback has, throwing what the callback throws. For
  \<open>sendActivity\<close>, \<open>Inr r\<close> is the returned resource response, \<open>None\<close> for \<open>undefined\<close>.
  The objects the cache stores are built by the platform and its SDK: \<open>own_property v k\<close>
  says whether the object \<open>v\<close> has an own property named \<open>k\<close> and, if so, whether its value
  is truthy.
\<close>

record client =
  createConversationAsync :: "platform_call list \<Rightarrow> create_request \<Rightarrow> js_error + turn_context"
  continueConversation :: "platform_call list \<Rightarrow> conversation_reference \<Rightarrow> js_error + turn_context"
  process :: "platform_call list \<Rightarrow> request \<Rightarrow> js_error + turn_context"
  sendActivity :: "platform_call list \<Rightarrow> turn_context \<Rightarrow> outgoing \<Rightarrow> js_error + resource_response option"
  own_property :: "conversation_reference \<Rightarrow> string \<Rightarrow> bool option"

record config =
  TEAMS_BOT_SERVICE_URL :: "string option"
  TEAMS_BOT_TENANT_ID :: "string option"
  TEAMS_BOT_APP_ID :: "string option"
  robot_name :: string

datatype log_entry =
    NoConversationReference string
  | CreatedConversationReference teams_room
  | NotACard js_error
  | Unauthorized
  | SendFailed js_error
  | IngressFailed js_error

datatype event =
    SendEvent envelope "resource_response list"
  | ReplyEvent envelope "resource_response list"

text \<open>
  The adapter's cache, the calls the platform has received, the lines logged and the events
  emitted. The cache is the plain object \<open>{}\<close> of the constructor, written with
  \<open>conversationReferences[id] = value\<close>. The map holds its own properties, and under the key
  \<open>__proto__\<close>, which an assignment turns into the object's prototype and not into an own
  property, the prototype that has been assigned, if any.
\<close>

record world =
  conversationReferences :: "string \<rightharpoonup> conversation_reference"
  calls :: "platform_call list"
  logged :: "log_entry list"
  emitted :: "event list"

definition logger :: "log_entry \<Rightarrow> world \<Rightarrow> world" where
  "logger l w = w\<lparr>logged := logged w @ [l]\<rparr>"

definition emit :: "event \<Rightarrow> world \<Rightarrow> world" where
  "emit ev w = w\<lparr>emitted := emitted w @ [ev]\<rparr>"

text \<open>The names \<open>Object.prototype\<close> gives every plain object; each holds a truthy value.\<close>

definition Object_prototype_members :: "string list" where
  "Object_prototype_members =
     [''constructor'', ''__defineGetter__'', ''__defineSetter__'', ''hasOwnProperty'',
      ''__lookupGetter__'', ''__lookupSetter__'', ''isPrototypeOf'', ''propertyIsEnumerable'',
      ''toString'', ''valueOf'', ''__proto__'', ''toLocaleString'']"

text \<open>
  The read \<open>conversationReferences[k]\<close> with the truthiness test that follows it: \<open>None\<close> when
  the value read is \<open>undefined\<close> or falsy. An own property comes first; then a property of the
  assigned prototype, whatever its value; then the members of \<open>Object.prototype\<close>, which the
  assigned prototype, a plain object, inherits too.
\<close>

definition cache_get ::
  "client \<Rightarrow> (string \<rightharpoonup> conversation_reference) \<Rightarrow> string \<Rightarrow> conversation_reference option" where
  "cache_get cl refs k =
     (let inherited = (if k \<in> set Object_prototype_members then Some (PrototypeMember k) else None)
      in case refs k of
           Some r \<Rightarrow> Some r
         | None \<Rightarrow>
             (case refs ''__proto__'' of
                None \<Rightarrow> inherited
              | Some v \<Rightarrow>
                  (case own_property cl v k of
                     None \<Rightarrow> inherited
                   | Some truthy \<Rightarrow> if truthy then Some (PropertyOf v k) else None)))"

text \<open>The literal \<open>/<\/(.*)>/\<close>.\<close>

definition closingTagPattern :: regex where
  "closingTagPattern =
     \<lparr>items = [Lit (CHR ''<''), Lit (CHR ''/''), DotStar, Lit (CHR ''>'')], ignoreCase = False\<rparr>"

fun join :: "string \<Rightarrow> string list \<Rightarrow> string" where
  "join sep [] = []"
| "join sep [x] = x"
| "join sep (x # y # ys) = x @ sep @ join sep (y # ys)"

section \<open>The outbound dispatcher\<close>

text \<open>
  \<open>sendWithDelegate(delegate, envelope, ...strings)\<close>: the loop over the strings with the
  responses pushed so far. A delegate that is \<open>undefined\<close> makes \<open>delegate.sendActivity\<close>
  throw a TypeError inside the second \<open>try\<close>.
\<close>

fun sendWithDelegate_loop ::
  "client \<Rightarrow> turn_context option \<Rightarrow> string list \<Rightarrow> resource_response list \<Rightarrow> world
     \<Rightarrow> resource_response list \<times> world" where
  "sendWithDelegate_loop cl delegate [] responses w = (responses, w)"
| "sendWithDelegate_loop cl delegate (msg # strings) responses w =
     (let markdown = (MessageFactory_text msg (Some msg))\<lparr>textFormat := Some Markdown\<rparr>;
          formatted = (if RegExp_test closingTagPattern msg
                       then markdown\<lparr>textFormat := Some Xml\<rparr> else markdown);
          (teamsMessage, w1) =
            (case JSON_parse msg of
               Inr parsed \<Rightarrow> (AttachmentsActivity [CardFactory_adaptiveCard parsed], w)
             | Inl e \<Rightarrow> (MessageActivity formatted, logger (NotACard e) w));
          (outcome, w2) =
            (case delegate of
               None \<Rightarrow> (Inl TypeError, w1)
             | Some context \<Rightarrow>
                 (sendActivity cl (calls w1) context teamsMessage,
                  w1\<lparr>calls := calls w1 @ [SendActivity context teamsMessage]\<rparr>))
      in case outcome of
           Inr response \<Rightarrow>
             (case response of
                Some r \<Rightarrow> sendWithDelegate_loop cl delegate strings (responses @ [r]) w2
              | None \<Rightarrow> sendWithDelegate_loop cl delegate strings responses w2)
         | Inl e \<Rightarrow>
             if statusCode e = Some 401
             then sendWithDelegate_loop cl delegate strings responses (logger Unauthorized w2)
             else sendWithDelegate_loop cl delegate strings responses (logger (SendFailed e) w2))"

definition sendWithDelegate ::
  "client \<Rightarrow> turn_context option \<Rightarrow> envelope \<Rightarrow> string list \<Rightarrow> world
     \<Rightarrow> resource_response list \<times> world" where
  "sendWithDelegate cl delegate envelope strings w = sendWithDelegate_loop cl delegate strings [] w"

text \<open>The loop of \<open>sendToRoom\<close> inside the \<open>continueConversation\<close> callback.\<close>

fun sendToRoom_loop ::
  "client \<Rightarrow> turn_context \<Rightarrow> string list \<Rightarrow> resource_response list \<Rightarrow> world
     \<Rightarrow> resource_response list \<times> world" where
  "sendToRoom_loop cl context [] responses w = (responses, w)"
| "sendToRoom_loop cl context (msg # strings) responses w =
     (let markdown = (MessageFactory_text msg (Some msg))\<lparr>textFormat := Some Markdown\<rparr>;
          formatted = (if RegExp_test closingTagPattern msg
                       then markdown\<lparr>textFormat := Some Xml\<rparr> else markdown);
          (teamsMessage, w1) =
            (case JSON_parse msg of
               Inr parsed \<Rightarrow> (AttachmentsActivity [CardFactory_adaptiveCard parsed], w)
             | Inl e \<Rightarrow> (MessageActivity formatted, logger (NotACard e) w));
          w2 = w1\<lparr>calls := calls w1 @ [SendActivity context teamsMessage]\<rparr>
      in case sendActivity cl (calls w1) context teamsMessage of
           Inr response \<Rightarrow>
             (case response of
                Some r \<Rightarrow> sendToRoom_loop cl context strings (responses @ [r]) w2
              | None \<Rightarrow> sendToRoom_loop cl context strings responses w2)
         | Inl e \<Rightarrow>
             if statusCode e = Some 401
             then sendToRoom_loop cl context strings responses (logger Unauthorized w2)
             else sendToRoom_loop cl context strings responses (logger (SendFailed e) w2))"

definition serviceUrl_of :: "config \<Rightarrow> string" where
  "serviceUrl_of cfg =
     (let fallback = ''https://smba.trafficmanager.net/amer/''
            @ (case TEAMS_BOT_TENANT_ID cfg of None \<Rightarrow> ''undefined'' | Some t \<Rightarrow> t) @ ''/''
      in case TEAMS_BOT_SERVICE_URL cfg of
           None \<Rightarrow> fallback
         | Some u \<Rightarrow> if u = [] then fallback else u)"

definition create_request_of :: "config \<Rightarrow> teams_room \<Rightarrow> string list \<Rightarrow> create_request" where
  "create_request_of cfg rm strings =
     \<lparr>botAppId = TEAMS_BOT_APP_ID cfg,
      channelId = ''msteams'',
      cr_serviceUrl = serviceUrl_of cfg,
      audience = None,
      conversationParameters =
        \<lparr>isGroup = True,
         bot = (TEAMS_BOT_APP_ID cfg, robot_name cfg),
         cp_serviceUrl = serviceUrl_of cfg,
         cp_channelData = channelData rm,
         cp_activity = MessageFactory_text (join [CHR 0x0A] strings) None,
         tenantId = TEAMS_BOT_TENANT_ID cfg\<rparr>\<rparr>"

text \<open>\<open>sendToRoom(room, ...strings)\<close>.\<close>

definition sendToRoom ::
  "client \<Rightarrow> config \<Rightarrow> teams_room \<Rightarrow> string list \<Rightarrow> world
     \<Rightarrow> (js_error + resource_response list) \<times> world" where
  "sendToRoom cl cfg rm strings w =
     (case cache_get cl (conversationReferences w) (channel_id (channel (channelData rm))) of
        None \<Rightarrow>
          (let w1 = logger (NoConversationReference (channel_id (channel (channelData rm)))) w;
               w2 = w1\<lparr>calls := calls w1 @ [CreateConversation (create_request_of cfg rm strings)]\<rparr>
           in case createConversationAsync cl (calls w1) (create_request_of cfg rm strings) of
                Inl e \<Rightarrow> (Inl e, w2)
              | Inr turnContext \<Rightarrow>
                  (let w3 = w2\<lparr>conversationReferences :=
                              (conversationReferences w2)
                                (conversation_id (conversation (activity turnContext))
                                   \<mapsto> FromConversation (conversation (activity turnContext)))\<rparr>;
                       seed = TextOnly (join [CHR 0x0A] strings);
                       w4 = w3\<lparr>calls := calls w3 @ [SendActivity turnContext seed]\<rparr>
                   in case sendActivity cl (calls w3) turnContext seed of
                        Inl e \<Rightarrow> (Inl e, w4)
                      | Inr response \<Rightarrow> (Inr [], logger (CreatedConversationReference rm) w4)))
      | Some conversationReference \<Rightarrow>
          (let w1 = w\<lparr>calls := calls w @ [ContinueConversation conversationReference]\<rparr>
           in case continueConversation cl (calls w) conversationReference of
                Inl e \<Rightarrow> (Inl e, w1)
              | Inr context \<Rightarrow>
                  (let (responses, w2) = sendToRoom_loop cl context strings [] w1
                   in (Inr responses,
                       emit (SendEvent \<lparr>room = Some rm, user = None\<rparr> responses) w2))))"

text \<open>\<open>send(envelope, ...strings)\<close>.\<close>

definition send ::
  "client \<Rightarrow> config \<Rightarrow> envelope \<Rightarrow> string list \<Rightarrow> world
     \<Rightarrow> (js_error + resource_response list) \<times> world" where
  "send cl cfg envelope strings w =
     (case (room envelope, user envelope) of
        (Some rm, None) \<Rightarrow> sendToRoom cl cfg rm strings w
      | (None, None) \<Rightarrow> (Inl TypeError, w)
      | (_, Some u) \<Rightarrow>
          (let (responses, w1) = sendWithDelegate cl (message u) envelope strings w
           in (Inr responses, emit (SendEvent envelope responses) w1)))"

text \<open>\<open>reply(envelope, ...strings)\<close>.\<close>

definition reply ::
  "client \<Rightarrow> envelope \<Rightarrow> string list \<Rightarrow> world
     \<Rightarrow> (js_error + resource_response list) \<times> world" where
  "reply cl envelope strings w =
     (case user envelope of
        None \<Rightarrow> (Inl TypeError, w)
      | Some u \<Rightarrow>
          (let (responses, w1) = sendWithDelegate cl (message u) envelope strings w
           in (Inr responses, emit (ReplyEvent envelope responses) w1)))"

section \<open>The ingress endpoint\<close>

record http_response =
  status :: nat
  sent :: string

text \<open>
  The handler of \<open>POST /\<close> and \<open>POST /api/messages\<close> registered by \<open>run\<close>. The activity
  handler is a collaborator: it may change all of the world (it reaches the dispatcher
  through the robot) and either returns or throws. \<open>#normalizeIncomingActivity\<close> rewrites
  the body through the SDK's mention helpers before the \<open>try\<close>; it is a parameter here,
  taken to return.
\<close>

definition post_messages ::
  "client \<Rightarrow> (inbound_activity \<Rightarrow> inbound_activity)
     \<Rightarrow> (turn_context \<Rightarrow> world \<Rightarrow> js_error option \<times> world)
     \<Rightarrow> request \<Rightarrow> world \<Rightarrow> http_response option \<times> world" where
  "post_messages cl normalizeIncomingActivity activityHandler req w =
     (let req1 = req\<lparr>body := normalizeIncomingActivity (body req)\<rparr>;
          w1 = w\<lparr>calls := calls w @ [Process req1]\<rparr>
      in case process cl (calls w) req1 of
           Inl e \<Rightarrow> (Some \<lparr>status = 500, sent = ''service error''\<rparr>, logger (IngressFailed e) w1)
         | Inr context \<Rightarrow>
             (let conversationReference = FromActivity (activity context);
                  w2 = w1\<lparr>conversationReferences :=
                         (conversationReferences w1)
                           (conversation_id (conversation (activity context)) \<mapsto> conversationReference)\<rparr>
              in case activityHandler context w2 of
                   (None, w3) \<Rightarrow> (Some \<lparr>status = 200, sent = ''ok''\<rparr>, w3)
                 | (Some e, w3) \<Rightarrow>
                     (Some \<lparr>status = 500, sent = ''service error''\<rparr>, logger (IngressFailed e) w3)))"

section \<open>Notions the properties are stated with\<close>

text \<open>
  A replacement template is taken literally by \<open>String.prototype.replace\<close> unless it holds
  one of the patterns \<open>$$\<close>, \<open>$&\<close>, \<open>$`\<close>, \<open>$'\<close>.
\<close>

fun has_replacement_pattern :: "string \<Rightarrow> bool" where
  "has_replacement_pattern (c # d # t) =
     ((c = CHR ''$'' \<and> d \<in> set [CHR ''$'', CHR ''&'', CHR ''`'', squote]) \<or> has_replacement_pattern (d # t))"
| "has_replacement_pattern _ = False"

text \<open>The input starts with the given code units, up to letter case.\<close>

definition ci_prefix :: "string \<Rightarrow> string \<Rightarrow> bool" where
  "ci_prefix p s = (length p \<le> length s \<and> map canonicalize (take (length p) s) = map canonicalize p)"

text \<open>
  The property of section 8 of the specification: the string, trimmed, is \<open>@r\<close> or starts
  with \<open>@r\<close> followed by a word boundary.
\<close>

definition mention_prefixed :: "string \<Rightarrow> string \<Rightarrow> bool" where
  "mention_prefixed r out =
     (let t = trim out
      in t = CHR ''@'' # r \<or> (prefix (CHR ''@'' # r) t \<and> word_boundary t (Suc (length r))))"

text \<open>The four results of \<open>ensureMentionPrefix\<close> for a truthy name, by the trimmed input.\<close>

definition mention_result :: "string \<Rightarrow> string \<Rightarrow> string" where
  "mention_result r t =
     (if t = [] then CHR ''@'' # r
      else if ci_prefix (CHR ''@'' # r) t \<and> word_boundary t (Suc (length r))
        then CHR ''@'' # r @ drop (Suc (length r)) t
      else if ci_prefix r t \<and> word_boundary t (length r)
        then CHR ''@'' # r @ drop (length r) t
      else CHR ''@'' # r @ '' '' @ t)"

text \<open>
  The rule of section 4.4 of the specification for one string: a card when it parses as JSON,
  otherwise text, XML when the closing-tag pattern matches and markdown when it does not.
\<close>

definition classified :: "string \<Rightarrow> outgoing" where
  "classified s =
     (case JSON_parse s of
        Inr parsed \<Rightarrow> AttachmentsActivity [CardFactory_adaptiveCard parsed]
      | Inl e \<Rightarrow>
          MessageActivity
            \<lparr>msg_text = s,
             msg_speak = (if s = [] then None else Some s),
             textFormat = Some (if RegExp_test closingTagPattern s then Xml else Markdown)\<rparr>)"

text \<open>
  What the platform answers to a sequence of sends on one turn handle, each answer given the
  calls before it; the responses among the answers; the lines one attempt logs.
\<close>

fun outcomes ::
  "client \<Rightarrow> turn_context \<Rightarrow> platform_call list \<Rightarrow> outgoing list
     \<Rightarrow> (js_error + resource_response option) list" where
  "outcomes cl ctx h [] = []"
| "outcomes cl ctx h (m # ms) = sendActivity cl h ctx m # outcomes cl ctx (h @ [SendActivity ctx m]) ms"

fun accepted :: "(js_error + resource_response option) list \<Rightarrow> resource_response list" where
  "accepted [] = []"
| "accepted (Inr (Some r) # os) = r # accepted os"
| "accepted (_ # os) = accepted os"

definition attempt_log :: "string \<Rightarrow> js_error + resource_response option \<Rightarrow> log_entry list" where
  "attempt_log s out =
     (case JSON_parse s of Inl e \<Rightarrow> [NotACard e] | Inr _ \<Rightarrow> [])
       @ (case out of
            Inl e \<Rightarrow> [if statusCode e = Some 401 then Unauthorized else SendFailed e]
          | Inr _ \<Rightarrow> [])"

section \<open>A platform to run the scenarios on\<close>

text \<open>
  A turn handle on a conversation, a room, a configuration, a world with an empty cache,
  and a platform client: it gives a new conversation the identity \<open>new_id\<close> makes from the
  room's channel id, resumes every value that names a conversation and throws a TypeError
  at a member of the object prototype, and makes \<open>sendActivity\<close> throw at the sends whose
  index (the number of sends before) satisfies \<open>fails\<close>; an accepted send is answered by a
  response that names what was sent.
\<close>

definition example_context :: "string \<Rightarrow> turn_context" where
  "example_context cid =
     \<lparr>activity = \<lparr>conversation = \<lparr>conversation_id = cid\<rparr>, activity_text = None\<rparr>\<rparr>"

definition example_room :: teams_room where
  "example_room = \<lparr>channelData = \<lparr>channel = \<lparr>channel_id = ''19:general''\<rparr>\<rparr>\<rparr>"

definition example_config :: config where
  "example_config =
     \<lparr>TEAMS_BOT_SERVICE_URL = None, TEAMS_BOT_TENANT_ID = Some ''tenant'',
      TEAMS_BOT_APP_ID = Some ''app'', robot_name = ''Bot''\<rparr>"

definition example_world :: world where
  "example_world = \<lparr>conversationReferences = Map.empty, calls = [], logged = [], emitted = []\<rparr>"

definition example_request :: request where
  "example_request =
     \<lparr>body = \<lparr>conversation = \<lparr>conversation_id = ''19:general''\<rparr>, activity_text = Some ''hi''\<rparr>\<rparr>"

fun sends :: "platform_call list \<Rightarrow> nat" where
  "sends [] = 0"
| "sends (SendActivity c m # h) = Suc (sends h)"
| "sends (_ # h) = sends h"

fun describe :: "outgoing \<Rightarrow> string" where
  "describe (MessageActivity a) = msg_text a"
| "describe (TextOnly t) = t"
| "describe (AttachmentsActivity as) = ''card''"

fun reference_id :: "conversation_reference \<Rightarrow> string" where
  "reference_id (FromActivity a) = conversation_id (conversation a)"
| "reference_id (FromConversation c) = conversation_id c"
| "reference_id (PrototypeMember k) = k"
| "reference_id (PropertyOf v k) = k"

fun example_resume :: "conversation_reference \<Rightarrow> js_error + turn_context" where
  "example_resume (PrototypeMember k) = Inl TypeError"
| "example_resume (PropertyOf v k) = Inl TypeError"
| "example_resume ref = Inr (example_context (reference_id ref))"

fun example_property :: "conversation_reference \<Rightarrow> string \<Rightarrow> bool option" where
  "example_property (FromConversation c) k = (if k = ''id'' then Some (conversation_id c \<noteq> []) else None)"
| "example_property (FromActivity a) k = (if k = ''conversation'' then Some True else None)"
| "example_property v k = None"

definition example_client :: "(string \<Rightarrow> string) \<Rightarrow> (nat \<Rightarrow> bool) \<Rightarrow> client" where
  "example_client new_id fails =
     \<lparr>createConversationAsync =
        (\<lambda>h r. Inr (example_context (new_id (channel_id (channel (cp_channelData (conversationParameters r))))))),
      continueConversation = (\<lambda>h ref. example_resume ref),
      process = (\<lambda>h req. Inr \<lparr>activity = body req\<rparr>),
      sendActivity =
        (\<lambda>h c m. if fails (sends h) then Inl (ServiceError (Some 500))
                  else Inr (Some (ResourceResponse (describe m)))),
      own_property = example_property\<rparr>"

section \<open>Facts about the patterns and the mention normalizer\<close>

lemma escape_set: "(c \<in> set ''.*+?^${}()|[]'' \<or> c = backslash) = syntax_char c"
  by (auto simp: syntax_char_def)

lemma parse_lit:
  "\<not> syntax_char c \<Longrightarrow> parse_pattern (c # xs) = map_option ((#) (Lit c)) (parse_pattern xs)"
  by (cases xs) (auto simp: syntax_char_def backslash_def)

lemma parse_esc:
  "syntax_char c \<Longrightarrow> parse_pattern (backslash # c # xs) = map_option ((#) (Lit c)) (parse_pattern xs)"
  by (auto simp: syntax_char_def backslash_def)

lemma parse_escape:
  "parse_pattern (escapeRegex r @ xs) = map_option ((@) (map Lit r)) (parse_pattern xs)"
proof (induction r)
  case Nil
  then show ?case by (simp add: escapeRegex_def option.map_ident)
next
  case (Cons a r)
  have step: "escapeRegex (a # r) = (if syntax_char a then [backslash, a] else [a]) @ escapeRegex r"
    by (simp add: escapeRegex_def escape_set[symmetric])
  show ?case
  proof (cases "syntax_char a")
    case True
    then show ?thesis
      using Cons.IH by (cases "parse_pattern xs") (simp_all add: step parse_esc del: parse_pattern.simps)
  next
    case False
    then show ?thesis
      using Cons.IH by (cases "parse_pattern xs") (simp_all add: step parse_lit del: parse_pattern.simps)
  qed
qed

lemma parse_wordb: "parse_pattern [backslash, CHR ''b''] = Some [WordB]"
  by (simp add: backslash_def)

lemma mention_pattern_parses:
  "RegExp_new (''^@'' @ escapeRegex r @ [backslash, CHR ''b'']) True
     = Inr \<lparr>items = Bol # Lit (CHR ''@'') # map Lit r @ [WordB], ignoreCase = True\<rparr>"
proof -
  have "parse_pattern (CHR ''@'' # escapeRegex r @ [backslash, CHR ''b''])
          = Some (Lit (CHR ''@'') # map Lit r @ [WordB])"
    by (simp add: parse_lit syntax_char_def backslash_def parse_escape[where xs = "[CHR 0x5C, CHR ''b'']", unfolded backslash_def] )
  then show ?thesis
    by (simp add: RegExp_new_def backslash_def)
qed

lemma bare_pattern_parses:
  "RegExp_new (''^'' @ escapeRegex r @ [backslash, CHR ''b'']) True
     = Inr \<lparr>items = Bol # map Lit r @ [WordB], ignoreCase = True\<rparr>"
proof -
  have a: "parse_pattern (escapeRegex r @ [backslash, CHR ''b'']) = Some (map Lit r @ [WordB])"
    by (simp add: parse_escape parse_wordb)
  show ?thesis
  proof (cases "escapeRegex r @ [backslash, CHR ''b'']")
    case Nil
    then show ?thesis by simp
  next
    case (Cons d cs)
    with a show ?thesis by (simp add: RegExp_new_def backslash_def)
  qed
qed

lemma match_lits:
  "match_at True (map Lit p @ rest) s i =
     (if ci_prefix p (drop i s) then match_at True rest s (i + length p) else None)"
proof (induction p arbitrary: i)
  case Nil
  then show ?case by (simp add: ci_prefix_def)
next
  case (Cons a p)
  show ?case
  proof (cases "i < length s")
    case True
    then have d: "drop i s = s ! i # drop (Suc i) s"
      by (simp add: Cons_nth_drop_Suc)
    show ?thesis
      using True Cons.IH[of "Suc i"]
      by (auto simp: ci_prefix_def d char_matches_def)
  next
    case False
    then show ?thesis by (simp add: ci_prefix_def)
  qed
qed

lemma first_some_all_None: "(\<forall>x \<in> set xs. x = None) \<Longrightarrow> first_some xs = None"
  by (induction xs) auto

lemma exec_bol:
  "RegExp_exec \<lparr>items = Bol # ps, ignoreCase = ic\<rparr> s = map_option (Pair 0) (match_at ic ps s 0)"
proof -
  have u: "[0 ..< Suc (length s)] = 0 # [Suc 0 ..< Suc (length s)]"
    by (rule upt_conv_Cons) simp
  have n: "first_some (map (\<lambda>i. map_option (Pair i) (match_at ic (Bol # ps) s i)) [Suc 0 ..< Suc (length s)]) = None"
    by (rule first_some_all_None) auto
  show ?thesis
    unfolding RegExp_exec_def u using n
    by (cases "match_at ic ps s 0") simp_all
qed

lemma exec_mention:
  "RegExp_exec \<lparr>items = Bol # map Lit p @ [WordB], ignoreCase = True\<rparr> s =
     (if ci_prefix p s \<and> word_boundary s (length p) then Some (0, length p) else None)"
  by (simp add: exec_bol match_lits)

lemma subst_id:
  "\<not> has_replacement_pattern t \<Longrightarrow> GetSubstitution t m b a = t"
  by (induction t m b a rule: GetSubstitution.induct) auto

lemma subst_id_at:
  "\<not> has_replacement_pattern r \<Longrightarrow> GetSubstitution (CHR ''@'' # r) m b a = CHR ''@'' # r"
  by (rule subst_id) (cases r; simp)

lemma of_char_lt: "(of_char c :: nat) < 256"
  by (metis of_char_mod_256 mod_less_divisor zero_less_numeral)

lemma canon_val:
  "(of_char (canonicalize c) :: nat) =
     (let n = of_char c :: nat
      in if (97 \<le> n \<and> n \<le> 122) \<or> (224 \<le> n \<and> n \<le> 254 \<and> n \<noteq> 247) then n - 32 else n)"
  using of_char_lt[of c] by (auto simp: canonicalize_def Let_def)

lemma canon_word_val:
  "is_word_char c =
     (let n = of_char (canonicalize c) :: nat
      in (48 \<le> n \<and> n \<le> 57) \<or> (65 \<le> n \<and> n \<le> 90) \<or> n = 95)"
  unfolding canon_val is_word_char_def Let_def
  by (cases "97 \<le> (of_char c :: nat) \<and> (of_char c :: nat) \<le> 122") (simp_all, arith+)

lemma canon_word:
  assumes "canonicalize a = canonicalize b"
  shows "is_word_char a = is_word_char b"
  by (simp add: canon_word_val assms)

lemma word_not_space: "is_word_char c \<Longrightarrow> \<not> is_white_space c"
  by (auto simp: is_word_char_def is_white_space_def Let_def)

lemma trim_id:
  "s \<noteq> [] \<Longrightarrow> \<not> is_white_space (hd s) \<Longrightarrow> \<not> is_white_space (last s) \<Longrightarrow> trim s = s"
proof -
  assume a: "s \<noteq> []" "\<not> is_white_space (hd s)" "\<not> is_white_space (last s)"
  then have 1: "dropWhile is_white_space s = s"
    by (cases s) auto
  from a have 2: "dropWhile is_white_space (rev s) = rev s"
    by (cases "rev s") (auto simp: last_rev[symmetric] simp del: last_rev)
  show ?thesis by (simp add: trim_def 1 2)
qed

lemma trim_ends:
  assumes "trim s \<noteq> []"
  shows "\<not> is_white_space (hd (trim s))" and "\<not> is_white_space (last (trim s))"
proof -
  let ?d = "dropWhile is_white_space s"
  let ?e = "dropWhile is_white_space (rev ?d)"
  from assms have e: "?e \<noteq> []" by (simp add: trim_def)
  then have he: "\<not> is_white_space (hd ?e)" by (rule hd_dropWhile)
  then show "\<not> is_white_space (last (trim s))"
    using e by (simp add: trim_def last_rev)
  from e have d: "?d \<noteq> []" by (metis dropWhile.simps(1) rev.simps(1))
  then have hd: "\<not> is_white_space (hd ?d)" by (rule hd_dropWhile)
  from e obtain ys where ys: "rev ?d = ys @ ?e"
    by (metis takeWhile_dropWhile_id)
  then have "?d = rev ?e @ rev ys"
    by (metis rev_append rev_rev_ident)
  then have "hd ?d = hd (rev ?e)" using e by (metis hd_append2 rev_is_Nil_conv)
  with hd show "\<not> is_white_space (hd (trim s))" by (simp add: trim_def)
qed

lemma replace_mention:
  assumes "\<not> has_replacement_pattern r"
  shows "String_replace t \<lparr>items = Bol # map Lit p @ [WordB], ignoreCase = True\<rparr> (CHR ''@'' # r) =
     (if ci_prefix p t \<and> word_boundary t (length p) then CHR ''@'' # r @ drop (length p) t else t)"
  using assms by (simp add: String_replace_def exec_mention subst_id_at)

lemma test_mention:
  "RegExp_test \<lparr>items = Bol # map Lit p @ [WordB], ignoreCase = True\<rparr> t =
     (ci_prefix p t \<and> word_boundary t (length p))"
  by (simp add: RegExp_test_def exec_mention)

lemma ensure_char:
  assumes "r \<noteq> []" and "\<not> has_replacement_pattern r"
  shows "ensureMentionPrefix text (Some r) =
     Inr (Some (mention_result r (trim (case text of None \<Rightarrow> [] | Some x \<Rightarrow> x))))"
proof -
  have m: "Bol # Lit (CHR ''@'') # map Lit r @ [WordB] = Bol # map Lit (CHR ''@'' # r) @ [WordB]"
    by simp
  show ?thesis
    unfolding ensureMentionPrefix_def mention_result_def Let_def
    using assms
    by (simp only: option.case mention_pattern_parses bare_pattern_parses sum.case m
        test_mention replace_mention[OF assms(2)] if_False) (simp)
qed

lemma boundary_after:
  assumes "p \<noteq> []" and "is_word_char (last p)"
  shows "word_boundary (p @ rest) (length p) = (rest = [] \<or> \<not> is_word_char (hd rest))"
proof -
  have "(p @ rest) ! (length p - 1) = last p"
    using assms(1) by (simp add: nth_append last_conv_nth)
  then show ?thesis
    using assms by (cases rest) (auto simp: word_boundary_def nth_append)
qed

lemma ci_prefix_boundary:
  assumes "ci_prefix p t" and "p \<noteq> []" and "is_word_char (last p)"
  shows "word_boundary t (length p) =
           (drop (length p) t = [] \<or> \<not> is_word_char (hd (drop (length p) t)))"
proof -
  let ?q = "take (length p) t"
  from assms(1) have len: "length ?q = length p" and eq: "map canonicalize ?q = map canonicalize p"
    by (auto simp: ci_prefix_def)
  from len assms(2) have q: "?q \<noteq> []" by auto
  have "canonicalize (last ?q) = canonicalize (last p)"
    using eq q assms(2) by (metis last_map)
  then have w: "is_word_char (last ?q)"
    using assms(3) canon_word by blast
  have "word_boundary (?q @ drop (length p) t) (length ?q) =
          (drop (length p) t = [] \<or> \<not> is_word_char (hd (drop (length p) t)))"
    by (rule boundary_after[OF q w])
  then show ?thesis unfolding len by simp
qed

lemma mention_result_shape:
  assumes "r \<noteq> []" and "is_word_char (last r)" and "t = [] \<or> \<not> is_white_space (last t)"
  shows "\<exists>rest. mention_result r t = CHR ''@'' # r @ rest
           \<and> (rest = [] \<or> (\<not> is_word_char (hd rest) \<and> \<not> is_white_space (last rest)))"
proof -
  have lastdrop: "\<And>n. drop n t \<noteq> [] \<Longrightarrow> \<not> is_white_space (last (drop n t))"
    using assms(3) by auto
  consider (empty) "t = []"
    | (mention) "t \<noteq> []" "ci_prefix (CHR ''@'' # r) t" "word_boundary t (Suc (length r))"
    | (bare) "t \<noteq> []" "\<not> (ci_prefix (CHR ''@'' # r) t \<and> word_boundary t (Suc (length r)))"
        "ci_prefix r t" "word_boundary t (length r)"
    | (other) "t \<noteq> []" "\<not> (ci_prefix (CHR ''@'' # r) t \<and> word_boundary t (Suc (length r)))"
        "\<not> (ci_prefix r t \<and> word_boundary t (length r))"
    by blast
  then show ?thesis
  proof cases
    case empty
    then show ?thesis by (simp add: mention_result_def)
  next
    case mention
    have "word_boundary t (length (CHR ''@'' # r)) =
            (drop (length (CHR ''@'' # r)) t = [] \<or> \<not> is_word_char (hd (drop (length (CHR ''@'' # r)) t)))"
      by (rule ci_prefix_boundary[OF mention(2)]) (use assms in auto)
    with mention(3) have "drop (Suc (length r)) t = [] \<or> \<not> is_word_char (hd (drop (Suc (length r)) t))"
      by simp
    moreover have "mention_result r t = CHR ''@'' # r @ drop (Suc (length r)) t"
      using mention by (simp add: mention_result_def)
    ultimately show ?thesis using lastdrop[of "Suc (length r)"] by blast
  next
    case bare
    have "word_boundary t (length r) = (drop (length r) t = [] \<or> \<not> is_word_char (hd (drop (length r) t)))"
      by (rule ci_prefix_boundary[OF bare(3) assms(1,2)])
    with bare(4) have "drop (length r) t = [] \<or> \<not> is_word_char (hd (drop (length r) t))"
      by simp
    moreover have "mention_result r t = CHR ''@'' # r @ drop (length r) t"
      using bare by (auto simp: mention_result_def)
    ultimately show ?thesis using lastdrop[of "length r"] by blast
  next
    case other
    have "mention_result r t = CHR ''@'' # r @ ('' '' @ t)"
      using other by (auto simp: mention_result_def)
    moreover have "\<not> is_word_char (hd ('' '' @ t))" by (simp add: is_word_char_def)
    moreover have "\<not> is_white_space (last ('' '' @ t))" using other(1) assms(3) by simp
    ultimately show ?thesis by blast
  qed
qed

lemma prefixed_shape:
  assumes "r \<noteq> []" and "is_word_char (last r)"
    and "rest = [] \<or> (\<not> is_word_char (hd rest) \<and> \<not> is_white_space (last rest))"
  shows "trim (CHR ''@'' # r @ rest) = CHR ''@'' # r @ rest"
    and "mention_prefixed r (CHR ''@'' # r @ rest)"
proof -
  let ?out = "CHR ''@'' # r @ rest"
  have l: "\<not> is_white_space (last ?out)"
    using assms word_not_space[of "last r"] by (cases "rest = []") auto
  have h: "\<not> is_white_space (hd ?out)" by (simp add: is_white_space_def)
  show t: "trim ?out = ?out"
    by (rule trim_id[OF _ h l]) simp
  have "word_boundary ((CHR ''@'' # r) @ rest) (length (CHR ''@'' # r))
          = (rest = [] \<or> \<not> is_word_char (hd rest))"
    by (rule boundary_after) (use assms in auto)
  then have "word_boundary ?out (Suc (length r))" using assms(3) by auto
  then show "mention_prefixed r ?out"
    unfolding mention_prefixed_def Let_def t by simp
qed

lemma ci_prefix_self: "ci_prefix p (p @ rest)"
  by (simp add: ci_prefix_def)

lemma ensureMentionPrefix_idempotent_word_names:
  assumes "r \<noteq> []" and "is_word_char (last r)" and "\<not> has_replacement_pattern r"
    and "ensureMentionPrefix (Some t) (Some r) = Inr (Some out)"
  shows "ensureMentionPrefix (Some out) (Some r) = Inr (Some out)"
proof -
  let ?t = "trim t"
  have e: "ensureMentionPrefix (Some t) (Some r) = Inr (Some (mention_result r ?t))"
    using ensure_char[OF assms(1,3), of "Some t"] by simp
  have "?t = [] \<or> \<not> is_white_space (last ?t)"
    using trim_ends(2)[of t] by blast
  from mention_result_shape[OF assms(1,2) this]
  obtain rest where rest: "mention_result r ?t = CHR ''@'' # r @ rest"
    "rest = [] \<or> (\<not> is_word_char (hd rest) \<and> \<not> is_white_space (last rest))"
    by blast
  have out: "out = CHR ''@'' # r @ rest"
    using e assms(4) rest(1) by simp
  have tr: "trim out = out"
    unfolding out by (rule prefixed_shape(1)[OF assms(1,2) rest(2)])
  have "mention_prefixed r out"
    unfolding out by (rule prefixed_shape(2)[OF assms(1,2) rest(2)])
  then have wb: "word_boundary out (Suc (length r))"
    unfolding mention_prefixed_def Let_def tr
    using boundary_after[of "CHR ''@'' # r" "[]"] assms(1,2) by auto
  have cp: "ci_prefix (CHR ''@'' # r) out"
    unfolding out using ci_prefix_self[of "CHR ''@'' # r" rest] by simp
  have "mention_result r out = CHR ''@'' # r @ drop (Suc (length r)) out"
    using cp wb by (simp add: mention_result_def out)
  also have "\<dots> = out" by (simp add: out)
  finally have "mention_result r (trim out) = out" by (simp add: tr)
  then show ?thesis
    using ensure_char[OF assms(1,3), of "Some out"] by simp
qed

lemma ensureMentionPrefix_returns: "\<exists>out. ensureMentionPrefix text robotName = Inr out"
proof (cases robotName)
  case None
  then show ?thesis by (simp add: ensureMentionPrefix_def)
next
  case (Some r)
  show ?thesis
    unfolding Some ensureMentionPrefix_def Let_def
    by (simp only: option.case mention_pattern_parses bare_pattern_parses sum.case) auto
qed

section \<open>Facts about the dispatcher\<close>

lemma logger_simps [simp]:
  "calls (logger l w) = calls w"
  "logged (logger l w) = logged w @ [l]"
  "emitted (logger l w) = emitted w"
  "conversationReferences (logger l w) = conversationReferences w"
  by (simp_all add: logger_def)

lemma emit_simps [simp]:
  "calls (emit ev w) = calls w"
  "logged (emit ev w) = logged w"
  "emitted (emit ev w) = emitted w @ [ev]"
  "conversationReferences (emit ev w) = conversationReferences w"
  by (simp_all add: emit_def)

lemma classified_xml:
  "JSON_parse s = Inl e \<Longrightarrow> RegExp_test closingTagPattern s \<Longrightarrow>
   MessageActivity ((MessageFactory_text s (Some s))\<lparr>textFormat := Some Xml\<rparr>) = classified s"
  by (simp add: classified_def MessageFactory_text_def)

lemma classified_markdown:
  "JSON_parse s = Inl e \<Longrightarrow> \<not> RegExp_test closingTagPattern s \<Longrightarrow>
   MessageActivity ((MessageFactory_text s (Some s))\<lparr>textFormat := Some Markdown\<rparr>) = classified s"
  by (simp add: classified_def MessageFactory_text_def)

lemma classified_card:
  "JSON_parse s = Inr parsed \<Longrightarrow> AttachmentsActivity [CardFactory_adaptiveCard parsed] = classified s"
  by (simp add: classified_def)

lemma world_swap [simp]: "w\<lparr>logged := a, calls := b\<rparr> = w\<lparr>calls := b, logged := a\<rparr>"
  by (cases w) simp

lemma sendToRoom_loop_step:
  "sendToRoom_loop cl ctx (s # strs) acc w =
     sendToRoom_loop cl ctx strs (acc @ accepted [sendActivity cl (calls w) ctx (classified s)])
       (w\<lparr>calls := calls w @ [SendActivity ctx (classified s)],
          logged := logged w @ attempt_log s (sendActivity cl (calls w) ctx (classified s))\<rparr>)"
proof (cases "JSON_parse s")
  case (Inl e)
  show ?thesis
  proof (cases "RegExp_test closingTagPattern s")
    case True
    note c = classified_xml[OF Inl True]
    show ?thesis
    proof (cases "sendActivity cl (calls w) ctx (classified s)")
      case (Inl err)
      then show ?thesis
        using \<open>JSON_parse s = Inl e\<close> True
        by (simp add: Let_def attempt_log_def logger_def c)
    next
      case (Inr r)
      then show ?thesis
        using \<open>JSON_parse s = Inl e\<close> True
        by (cases r) (simp_all add: Let_def attempt_log_def logger_def c)
    qed
  next
    case False
    note c = classified_markdown[OF Inl False]
    show ?thesis
    proof (cases "sendActivity cl (calls w) ctx (classified s)")
      case (Inl err)
      then show ?thesis
        using \<open>JSON_parse s = Inl e\<close> False
        by (simp add: Let_def attempt_log_def logger_def c)
    next
      case (Inr r)
      then show ?thesis
        using \<open>JSON_parse s = Inl e\<close> False
        by (cases r) (simp_all add: Let_def attempt_log_def logger_def c)
    qed
  qed
next
  case (Inr parsed)
  note c = classified_card[OF Inr]
  show ?thesis
  proof (cases "sendActivity cl (calls w) ctx (classified s)")
    case (Inl err)
    then show ?thesis
      using \<open>JSON_parse s = Inr parsed\<close>
      by (simp add: Let_def attempt_log_def logger_def c)
  next
    case (Inr r)
    then show ?thesis
      using \<open>JSON_parse s = Inr parsed\<close>
      by (cases r) (simp_all add: Let_def attempt_log_def logger_def c)
  qed
qed

lemma sendToRoom_loop_eq:
  "sendToRoom_loop cl ctx strs acc w =
     (acc @ accepted (outcomes cl ctx (calls w) (map classified strs)),
      w\<lparr>calls := calls w @ map (SendActivity ctx) (map classified strs),
        logged := logged w
          @ concat (map2 attempt_log strs (outcomes cl ctx (calls w) (map classified strs)))\<rparr>)"
proof (induction strs arbitrary: acc w)
  case Nil
  then show ?case by simp
next
  case (Cons s strs)
  have a: "accepted (x # xs) = accepted [x] @ accepted xs" for x xs
    by (cases "(x # xs)" rule: accepted.cases) auto
  show ?case
    unfolding sendToRoom_loop_step Cons.IH
    by (simp add: a[of _ "outcomes _ _ _ _"])
qed

lemma sendWithDelegate_loop_step:
  "sendWithDelegate_loop cl (Some ctx) (s # strs) acc w =
     sendWithDelegate_loop cl (Some ctx) strs (acc @ accepted [sendActivity cl (calls w) ctx (classified s)])
       (w\<lparr>calls := calls w @ [SendActivity ctx (classified s)],
          logged := logged w @ attempt_log s (sendActivity cl (calls w) ctx (classified s))\<rparr>)"
proof (cases "JSON_parse s")
  case (Inl e)
  show ?thesis
  proof (cases "RegExp_test closingTagPattern s")
    case True
    note c = classified_xml[OF Inl True]
    show ?thesis
    proof (cases "sendActivity cl (calls w) ctx (classified s)")
      case (Inl err)
      then show ?thesis
        using \<open>JSON_parse s = Inl e\<close> True
        by (simp add: Let_def attempt_log_def logger_def c)
    next
      case (Inr r)
      then show ?thesis
        using \<open>JSON_parse s = Inl e\<close> True
        by (cases r) (simp_all add: Let_def attempt_log_def logger_def c)
    qed
  next
    case False
    note c = classified_markdown[OF Inl False]
    show ?thesis
    proof (cases "sendActivity cl (calls w) ctx (classified s)")
      case (Inl err)
      then show ?thesis
        using \<open>JSON_parse s = Inl e\<close> False
        by (simp add: Let_def attempt_log_def logger_def c)
    next
      case (Inr r)
      then show ?thesis
        using \<open>JSON_parse s = Inl e\<close> False
        by (cases r) (simp_all add: Let_def attempt_log_def logger_def c)
    qed
  qed
next
  case (Inr parsed)
  note c = classified_card[OF Inr]
  show ?thesis
  proof (cases "sendActivity cl (calls w) ctx (classified s)")
    case (Inl err)
    then show ?thesis
      using \<open>JSON_parse s = Inr parsed\<close>
      by (simp add: Let_def attempt_log_def logger_def c)
  next
    case (Inr r)
    then show ?thesis
      using \<open>JSON_parse s = Inr parsed\<close>
      by (cases r) (simp_all add: Let_def attempt_log_def logger_def c)
  qed
qed

lemma sendWithDelegate_loop_eq:
  "sendWithDelegate_loop cl (Some ctx) strs acc w =
     (acc @ accepted (outcomes cl ctx (calls w) (map classified strs)),
      w\<lparr>calls := calls w @ map (SendActivity ctx) (map classified strs),
        logged := logged w
          @ concat (map2 attempt_log strs (outcomes cl ctx (calls w) (map classified strs)))\<rparr>)"
proof (induction strs arbitrary: acc w)
  case Nil
  then show ?case by simp
next
  case (Cons s strs)
  have a: "accepted (x # xs) = accepted [x] @ accepted xs" for x xs
    by (cases "(x # xs)" rule: accepted.cases) auto
  show ?case
    unfolding sendWithDelegate_loop_step Cons.IH
    by (simp add: a[of _ "outcomes _ _ _ _"])
qed

lemma sendWithDelegate_loop_undefined:
  "sendWithDelegate_loop cl None strs acc w =
     (acc, w\<lparr>logged := logged w @ concat (map (\<lambda>s. attempt_log s (Inl TypeError)) strs)\<rparr>)"
proof (induction strs arbitrary: acc w)
  case Nil
  then show ?case by simp
next
  case (Cons s strs)
  show ?case
    by (cases "JSON_parse s") (simp_all add: Cons.IH Let_def attempt_log_def logger_def)
qed

lemma sendWithDelegate_eq:
  "sendWithDelegate cl (Some ctx) e strs w =
     (accepted (outcomes cl ctx (calls w) (map classified strs)),
      w\<lparr>calls := calls w @ map (SendActivity ctx) (map classified strs),
        logged := logged w
          @ concat (map2 attempt_log strs (outcomes cl ctx (calls w) (map classified strs)))\<rparr>)"
  by (simp add: sendWithDelegate_def sendWithDelegate_loop_eq)

lemma sendWithDelegate_undefined:
  "sendWithDelegate cl None e strs w =
     ([], w\<lparr>logged := logged w @ concat (map (\<lambda>s. attempt_log s (Inl TypeError)) strs)\<rparr>)"
  by (simp add: sendWithDelegate_def sendWithDelegate_loop_undefined)

lemma cache_get_own: "refs k = Some r \<Longrightarrow> cache_get cl refs k = Some r"
  by (simp add: cache_get_def)

lemma sendToRoom_hit:
  assumes "conversationReferences w (channel_id (channel (channelData rm))) = Some ref"
    and "continueConversation cl (calls w) ref = Inr ctx"
  shows "sendToRoom cl cfg rm strs w =
     (Inr (accepted (outcomes cl ctx (calls w @ [ContinueConversation ref]) (map classified strs))),
      emit (SendEvent \<lparr>room = Some rm, user = None\<rparr>
              (accepted (outcomes cl ctx (calls w @ [ContinueConversation ref]) (map classified strs))))
        (w\<lparr>calls := calls w @ ContinueConversation ref # map (SendActivity ctx) (map classified strs),
           logged := logged w
             @ concat (map2 attempt_log strs
                 (outcomes cl ctx (calls w @ [ContinueConversation ref]) (map classified strs)))\<rparr>))"
  using assms by (simp add: sendToRoom_def Let_def sendToRoom_loop_eq cache_get_own)

lemma sendToRoom_miss_rejected:
  assumes "cache_get cl (conversationReferences w) (channel_id (channel (channelData rm))) = None"
    and "createConversationAsync cl (calls w) (create_request_of cfg rm strs) = Inl e"
  shows "fst (sendToRoom cl cfg rm strs w) = Inl e"
    and "calls (snd (sendToRoom cl cfg rm strs w)) = calls w @ [CreateConversation (create_request_of cfg rm strs)]"
    and "conversationReferences (snd (sendToRoom cl cfg rm strs w)) = conversationReferences w"
    and "emitted (snd (sendToRoom cl cfg rm strs w)) = emitted w"
  using assms by (simp_all add: sendToRoom_def Let_def)

lemma sendToRoom_miss_created:
  assumes "cache_get cl (conversationReferences w) (channel_id (channel (channelData rm))) = None"
    and "createConversationAsync cl (calls w) (create_request_of cfg rm strs) = Inr tc"
  shows "fst (sendToRoom cl cfg rm strs w) =
           (case sendActivity cl (calls w @ [CreateConversation (create_request_of cfg rm strs)]) tc
                   (TextOnly (join [CHR 0x0A] strs)) of
              Inl e \<Rightarrow> Inl e
            | Inr r0 \<Rightarrow> Inr [])"
    and "calls (snd (sendToRoom cl cfg rm strs w)) =
           calls w @ [CreateConversation (create_request_of cfg rm strs),
                      SendActivity tc (TextOnly (join [CHR 0x0A] strs))]"
    and "conversationReferences (snd (sendToRoom cl cfg rm strs w)) =
           (conversationReferences w)
             (conversation_id (conversation (activity tc)) \<mapsto> FromConversation (conversation (activity tc)))"
    and "emitted (snd (sendToRoom cl cfg rm strs w)) = emitted w"
  using assms by (simp_all add: sendToRoom_def Let_def split: sum.splits)

lemma cache_get_other:
  assumes "cache_get cl refs k = None" and "j \<noteq> k" and "j \<noteq> ''__proto__''"
  shows "cache_get cl (refs(j \<mapsto> v)) k = None"
proof -
  have "(refs(j \<mapsto> v)) k = refs k" and "(refs(j \<mapsto> v)) ''__proto__'' = refs ''__proto__''"
    using assms(2,3) by auto
  then have "cache_get cl (refs(j \<mapsto> v)) k = cache_get cl refs k"
    by (simp only: cache_get_def)
  then show ?thesis using assms(1) by simp
qed

lemma sendToRoom_resumes:
  assumes "conversationReferences w (channel_id (channel (channelData rm))) = Some ref"
  shows "take (Suc (length (calls w))) (calls (snd (sendToRoom cl cfg rm strs w)))
           = calls w @ [ContinueConversation ref]"
proof (cases "continueConversation cl (calls w) ref")
  case (Inl err)
  then show ?thesis using assms by (simp add: sendToRoom_def Let_def cache_get_own)
next
  case (Inr ctx)
  show ?thesis by (simp add: sendToRoom_hit[OF assms Inr])
qed

lemma send_direct:
  assumes "user e = Some u"
  shows "send cl cfg e strs w =
     (Inr (fst (sendWithDelegate cl (message u) e strs w)),
      emit (SendEvent e (fst (sendWithDelegate cl (message u) e strs w)))
        (snd (sendWithDelegate cl (message u) e strs w)))"
  using assms by (simp add: send_def Let_def split: option.splits prod.splits)

lemma reply_direct:
  assumes "user e = Some u"
  shows "reply cl e strs w =
     (Inr (fst (sendWithDelegate cl (message u) e strs w)),
      emit (ReplyEvent e (fst (sendWithDelegate cl (message u) e strs w)))
        (snd (sendWithDelegate cl (message u) e strs w)))"
  using assms by (simp add: reply_def Let_def split: option.splits prod.splits)

lemma classified_parsed:
  "JSON_parse s = Inr parsed \<Longrightarrow>
   classified s = AttachmentsActivity
     [\<lparr>contentType = ''application/vnd.microsoft.card.adaptive'', content = parsed\<rparr>]"
  by (simp add: classified_def CardFactory_adaptiveCard_def)

section \<open>Facts about the closing-tag pattern\<close>

lemma first_some_map_None_iff: "first_some (map f xs) = None \<longleftrightarrow> (\<forall>x\<in>set xs. f x = None)"
proof (induction xs)
  case Nil
  then show ?case by simp
next
  case (Cons a xs)
  then show ?case by (cases "f a") simp_all
qed

lemma RegExp_test_iff:
  "RegExp_test re s \<longleftrightarrow> (\<exists>i\<le>length s. match_at (ignoreCase re) (items re) s i \<noteq> None)"
  unfolding RegExp_test_def RegExp_exec_def first_some_map_None_iff
  by (simp add: less_Suc_eq_le Bex_def del: upt_Suc)

lemma match_lit_last:
  "match_at False [Lit c] s j \<noteq> None \<longleftrightarrow> j < length s \<and> s ! j = c"
  by (simp add: char_matches_def)

lemma match_dotstar:
  "match_at False [DotStar, Lit c] s k \<noteq> None \<longleftrightarrow>
     (\<exists>j. k \<le> j \<and> j \<le> k + length (takeWhile (\<lambda>c. \<not> line_terminator c) (drop k s))
        \<and> j < length s \<and> s ! j = c)"
proof -
  let ?n = "length (takeWhile (\<lambda>c. \<not> line_terminator c) (drop k s))"
  have "match_at False [DotStar, Lit c] s k = None \<longleftrightarrow>
          (\<forall>j\<in>set (rev [k ..< Suc (k + ?n)]). match_at False [Lit c] s j = None)"
    by (simp only: match_at.simps(5) first_some_map_None_iff)
  then have "match_at False [DotStar, Lit c] s k \<noteq> None \<longleftrightarrow>
          (\<exists>j\<in>set (rev [k ..< Suc (k + ?n)]). match_at False [Lit c] s j \<noteq> None)"
    by (metis (no_types, lifting))
  also have "\<dots> \<longleftrightarrow> (\<exists>j. k \<le> j \<and> j \<le> k + ?n \<and> j < length s \<and> s ! j = c)"
    unfolding match_lit_last by (simp only: set_rev set_upt atLeastLessThan_iff less_Suc_eq_le Bex_def) blast
  finally show ?thesis .
qed

lemma closing_match:
  "match_at False [Lit (CHR ''<''), Lit (CHR ''/''), DotStar, Lit (CHR ''>'')] s i \<noteq> None \<longleftrightarrow>
     (Suc i < length s \<and> s ! i = CHR ''<'' \<and> s ! Suc i = CHR ''/'' \<and>
      (\<exists>j. Suc (Suc i) \<le> j
         \<and> j \<le> Suc (Suc i) + length (takeWhile (\<lambda>c. \<not> line_terminator c) (drop (Suc (Suc i)) s))
         \<and> j < length s \<and> s ! j = CHR ''>''))"
proof -
  have "match_at False [Lit (CHR ''<''), Lit (CHR ''/''), DotStar, Lit (CHR ''>'')] s i \<noteq> None \<longleftrightarrow>
          (i < length s \<and> s ! i = CHR ''<'' \<and> Suc i < length s \<and> s ! Suc i = CHR ''/''
           \<and> match_at False [DotStar, Lit (CHR ''>'')] s (Suc (Suc i)) \<noteq> None)"
    by (simp only: match_at.simps(3) char_matches_def if_False split: if_splits) auto
  then show ?thesis
    unfolding match_dotstar by auto
qed

lemma take_takeWhile_all:
  assumes "k \<le> length (takeWhile P xs)"
  shows "\<forall>c\<in>set (take k xs). P c"
proof -
  have "take k xs = take k (takeWhile P xs @ dropWhile P xs)" by simp
  also have "\<dots> = take k (takeWhile P xs)" using assms by (simp del: takeWhile_dropWhile_id)
  finally have "set (take k xs) \<subseteq> set (takeWhile P xs)" by (metis set_take_subset)
  then show ?thesis by (auto dest: set_takeWhileD)
qed

lemma closing_tag_iff:
  "RegExp_test closingTagPattern s \<longleftrightarrow>
     (\<exists>a m b. s = a @ ''</'' @ m @ ''>'' @ b \<and> (\<forall>c\<in>set m. \<not> line_terminator c))"
proof
  assume "RegExp_test closingTagPattern s"
  then obtain i where "match_at False [Lit (CHR ''<''), Lit (CHR ''/''), DotStar, Lit (CHR ''>'')] s i \<noteq> None"
    unfolding RegExp_test_iff closingTagPattern_def by (auto simp del: match_at.simps)
  then obtain j where i: "Suc i < length s" "s ! i = CHR ''<''" "s ! Suc i = CHR ''/''"
    and j: "Suc (Suc i) \<le> j"
      "j \<le> Suc (Suc i) + length (takeWhile (\<lambda>c. \<not> line_terminator c) (drop (Suc (Suc i)) s))"
      "j < length s" "s ! j = CHR ''>''"
    unfolding closing_match by blast
  let ?k = "j - Suc (Suc i)"
  let ?m = "take ?k (drop (Suc (Suc i)) s)"
  have m: "\<forall>c\<in>set ?m. \<not> line_terminator c"
    by (rule take_takeWhile_all) (use j in auto)
  have 1: "drop i s = CHR ''<'' # drop (Suc i) s"
    using i Cons_nth_drop_Suc[of i s] by simp
  have 2: "drop (Suc i) s = CHR ''/'' # drop (Suc (Suc i)) s"
    using i Cons_nth_drop_Suc[of "Suc i" s] by simp
  have "?k + Suc (Suc i) = j" using j by simp
  then have "drop ?k (drop (Suc (Suc i)) s) = drop j s"
    by (simp only: drop_drop)
  then have 3: "drop (Suc (Suc i)) s = ?m @ drop j s"
    by (metis append_take_drop_id)
  have 4: "drop j s = CHR ''>'' # drop (Suc j) s"
    using j Cons_nth_drop_Suc[of j s] by simp
  have "s = take i s @ drop i s" by simp
  also have "drop i s = ''</'' @ ?m @ ''>'' @ drop (Suc j) s"
    using 1 2 3 4 by simp
  finally have "s = take i s @ ''</'' @ ?m @ ''>'' @ drop (Suc j) s" .
  then show "\<exists>a m b. s = a @ ''</'' @ m @ ''>'' @ b \<and> (\<forall>c\<in>set m. \<not> line_terminator c)"
    using m by blast
next
  assume "\<exists>a m b. s = a @ ''</'' @ m @ ''>'' @ b \<and> (\<forall>c\<in>set m. \<not> line_terminator c)"
  then obtain a m b where s: "s = a @ ''</'' @ m @ ''>'' @ b" and m: "\<forall>c\<in>set m. \<not> line_terminator c"
    by blast
  have d: "drop (Suc (Suc (length a))) s = m @ ''>'' @ b"
    by (simp add: s)
  have t: "length m \<le> length (takeWhile (\<lambda>c. \<not> line_terminator c) (drop (Suc (Suc (length a))) s))"
    unfolding d using m by (simp add: takeWhile_append2)
  have "match_at False [Lit (CHR ''<''), Lit (CHR ''/''), DotStar, Lit (CHR ''>'')] s (length a) \<noteq> None"
    unfolding closing_match
  proof (intro conjI exI[of _ "Suc (Suc (length a)) + length m"])
    show "Suc (length a) < length s" by (simp add: s)
    show "s ! length a = CHR ''<''" by (simp add: s)
    show "s ! Suc (length a) = CHR ''/''" by (simp add: s nth_append)
    show "Suc (Suc (length a)) \<le> Suc (Suc (length a)) + length m" by simp
    show "Suc (Suc (length a)) + length m
            \<le> Suc (Suc (length a)) + length (takeWhile (\<lambda>c. \<not> line_terminator c) (drop (Suc (Suc (length a))) s))"
      using t by simp
    show "Suc (Suc (length a)) + length m < length s" by (simp add: s)
    show "s ! (Suc (Suc (length a)) + length m) = CHR ''>''"
      by (simp add: s nth_append)
  qed
  moreover have "length a \<le> length s" by (simp add: s)
  ultimately show "RegExp_test closingTagPattern s"
    unfolding RegExp_test_iff closingTagPattern_def by (auto simp del: match_at.simps)
qed

lemma classified_unparsed:
  "JSON_parse s = Inl err \<Longrightarrow>
   classified s = MessageActivity
     \<lparr>msg_text = s, msg_speak = (if s = [] then None else Some s),
      textFormat = Some (if (\<exists>a m b. s = a @ ''</'' @ m @ ''>'' @ b \<and> (\<forall>c\<in>set m. \<not> line_terminator c))
                         then Xml else Markdown)\<rparr>"
  by (simp add: classified_def closing_tag_iff)

section \<open>Facts about the ingress endpoint\<close>

lemma post_messages_turn:
  assumes "process cl (calls w) (req\<lparr>body := norm (body req)\<rparr>) = Inr ctx"
  shows "post_messages cl norm handler req w =
     (case handler ctx
             (w\<lparr>calls := calls w @ [Process (req\<lparr>body := norm (body req)\<rparr>)],
                conversationReferences :=
                  (conversationReferences w)
                    (conversation_id (conversation (activity ctx)) \<mapsto> FromActivity (activity ctx))\<rparr>) of
        (None, w3) \<Rightarrow> (Some \<lparr>status = 200, sent = ''ok''\<rparr>, w3)
      | (Some err, w3) \<Rightarrow> (Some \<lparr>status = 500, sent = ''service error''\<rparr>, logger (IngressFailed err) w3))"
  using assms by (simp add: post_messages_def Let_def)

lemma post_messages_rejected:
  assumes "process cl (calls w) (req\<lparr>body := norm (body req)\<rparr>) = Inl err"
  shows "post_messages cl norm handler req w =
     (Some \<lparr>status = 500, sent = ''service error''\<rparr>,
      logger (IngressFailed err) (w\<lparr>calls := calls w @ [Process (req\<lparr>body := norm (body req)\<rparr>)]\<rparr>))"
  using assms by (simp add: post_messages_def Let_def)

section \<open>The claims\<close>

text \<open>
  Claim C1. A string that parses as JSON is handed to the platform as one adaptive-card
  attachment holding the parsed value, never as a text activity, on every delivery path:
  \<open>send\<close> and \<open>reply\<close> on the turn handle of the envelope's user, and \<open>sendToRoom\<close> (called
  directly or through \<open>send\<close> with a room-only envelope) on a cached conversation that the
  platform resumes. The string at index \<open>i\<close> is the \<open>i\<close>-th activity the call submits.
\<close>

theorem json_delivered_as_card:
  assumes "i < length strings" and "JSON_parse (strings ! i) = Inr parsed"
  shows "(user e = Some u \<and> message u = Some ctx \<longrightarrow>
            calls (snd (send cl cfg e strings w)) ! (length (calls w) + i) =
              SendActivity ctx (AttachmentsActivity
                [\<lparr>contentType = ''application/vnd.microsoft.card.adaptive'', content = parsed\<rparr>])
          \<and> calls (snd (reply cl e strings w)) ! (length (calls w) + i) =
              SendActivity ctx (AttachmentsActivity
                [\<lparr>contentType = ''application/vnd.microsoft.card.adaptive'', content = parsed\<rparr>]))
       \<and> (conversationReferences w (channel_id (channel (channelData rm))) = Some ref
            \<and> continueConversation cl (calls w) ref = Inr ctx \<longrightarrow>
            calls (snd (sendToRoom cl cfg rm strings w)) ! (Suc (length (calls w)) + i) =
              SendActivity ctx (AttachmentsActivity
                [\<lparr>contentType = ''application/vnd.microsoft.card.adaptive'', content = parsed\<rparr>])
          \<and> (room e = Some rm \<and> user e = None \<longrightarrow>
               calls (snd (send cl cfg e strings w)) ! (Suc (length (calls w)) + i) =
                 SendActivity ctx (AttachmentsActivity
                   [\<lparr>contentType = ''application/vnd.microsoft.card.adaptive'', content = parsed\<rparr>])))"
proof -
  let ?card = "SendActivity ctx (AttachmentsActivity
               [\<lparr>contentType = ''application/vnd.microsoft.card.adaptive'', content = parsed\<rparr>])"
  have c: "map (SendActivity ctx) (map classified strings) ! i = ?card"
    using assms by (simp add: classified_parsed)
  have n: "(xs @ ys) ! (length xs + i) = ys ! i" for xs ys :: "platform_call list"
    by simp
  have n1: "(xs @ y # ys) ! Suc (length xs + i) = ys ! i" for xs ys :: "platform_call list" and y
    by (simp add: nth_append)
  have 1: "calls (snd (send cl cfg e strings w)) ! (length (calls w) + i) = ?card
         \<and> calls (snd (reply cl e strings w)) ! (length (calls w) + i) = ?card"
    if "user e = Some u" and "message u = Some ctx"
    using that by (simp add: send_direct reply_direct sendWithDelegate_eq n c del: map_map)
  have 2: "calls (snd (sendToRoom cl cfg rm strings w)) ! (Suc (length (calls w)) + i) = ?card"
    if "conversationReferences w (channel_id (channel (channelData rm))) = Some ref"
      and "continueConversation cl (calls w) ref = Inr ctx"
    by (simp add: sendToRoom_hit[OF that] n1 c del: map_map)
  have 3: "send cl cfg e strings w = sendToRoom cl cfg rm strings w"
    if "room e = Some rm" and "user e = None"
    using that by (simp add: send_def)
  show ?thesis using 1 2 3 by metis
qed

text \<open>
  The theorem at the strings \<open><b>hi</b>\<close> and \<open>{"type":"AdaptiveCard"}\<close>: the second is submitted
  as a card on each path.
\<close>

theorem json_delivered_as_card_witness:
  \<open>1 < length [''<b>hi</b>'', ''{"type":"AdaptiveCard"}'']
   \<and> JSON_parse ([''<b>hi</b>'', ''{"type":"AdaptiveCard"}''] ! 1)
        = Inr (JObject [(''type'', JString ''AdaptiveCard'')])
   \<and> user \<lparr>room = None, user = Some \<lparr>message = Some (example_context ''c'')\<rparr>\<rparr>
        = Some \<lparr>message = Some (example_context ''c'')\<rparr>
   \<and> message \<lparr>message = Some (example_context ''c'')\<rparr> = Some (example_context ''c'')
   \<and> conversationReferences
         (example_world\<lparr>conversationReferences := [''19:general'' \<mapsto> FromConversation \<lparr>conversation_id = ''c''\<rparr>]\<rparr>)
         (channel_id (channel (channelData example_room)))
        = Some (FromConversation \<lparr>conversation_id = ''c''\<rparr>)
   \<and> continueConversation (example_client id (\<lambda>n. False))
         (calls (example_world\<lparr>conversationReferences := [''19:general'' \<mapsto> FromConversation \<lparr>conversation_id = ''c''\<rparr>]\<rparr>))
         (FromConversation \<lparr>conversation_id = ''c''\<rparr>) = Inr (example_context ''c'')
   \<and> calls (snd (send (example_client id (\<lambda>n. False)) example_config
                   \<lparr>room = None, user = Some \<lparr>message = Some (example_context ''c'')\<rparr>\<rparr>
                   [''<b>hi</b>'', ''{"type":"AdaptiveCard"}'']
                   (example_world\<lparr>conversationReferences := [''19:general'' \<mapsto> FromConversation \<lparr>conversation_id = ''c''\<rparr>]\<rparr>))) ! 1
        = SendActivity (example_context ''c'') (AttachmentsActivity
            [\<lparr>contentType = ''application/vnd.microsoft.card.adaptive'',
              content = JObject [(''type'', JString ''AdaptiveCard'')]\<rparr>])
   \<and> calls (snd (reply (example_client id (\<lambda>n. False))
                   \<lparr>room = None, user = Some \<lparr>message = Some (example_context ''c'')\<rparr>\<rparr>
                   [''<b>hi</b>'', ''{"type":"AdaptiveCard"}'']
                   (example_world\<lparr>conversationReferences := [''19:general'' \<mapsto> FromConversation \<lparr>conversation_id = ''c''\<rparr>]\<rparr>))) ! 1
        = SendActivity (example_context ''c'') (AttachmentsActivity
            [\<lparr>contentType = ''application/vnd.microsoft.card.adaptive'',
              content = JObject [(''type'', JString ''AdaptiveCard'')]\<rparr>])
   \<and> calls (snd (sendToRoom (example_client id (\<lambda>n. False)) example_config example_room
                   [''<b>hi</b>'', ''{"type":"AdaptiveCard"}'']
                   (example_world\<lparr>conversationReferences := [''19:general'' \<mapsto> FromConversation \<lparr>conversation_id = ''c''\<rparr>]\<rparr>))) ! 2
        = SendActivity (example_context ''c'') (AttachmentsActivity
            [\<lparr>contentType = ''application/vnd.microsoft.card.adaptive'',
              content = JObject [(''type'', JString ''AdaptiveCard'')]\<rparr>])
   \<and> calls (snd (send (example_client id (\<lambda>n. False)) example_config
                   \<lparr>room = Some example_room, user = None\<rparr>
                   [''<b>hi</b>'', ''{"type":"AdaptiveCard"}'']
                   (example_world\<lparr>conversationReferences := [''19:general'' \<mapsto> FromConversation \<lparr>conversation_id = ''c''\<rparr>]\<rparr>))) ! 2
        = SendActivity (example_context ''c'') (AttachmentsActivity
            [\<lparr>contentType = ''application/vnd.microsoft.card.adaptive'',
              content = JObject [(''type'', JString ''AdaptiveCard'')]\<rparr>])\<close>
proof -
  let ?strs = \<open>[''<b>hi</b>'', ''{"type":"AdaptiveCard"}'']\<close>
  let ?e = "\<lparr>room = None, user = Some \<lparr>message = Some (example_context ''c'')\<rparr>\<rparr>"
  let ?w = "example_world\<lparr>conversationReferences := [''19:general'' \<mapsto> FromConversation \<lparr>conversation_id = ''c''\<rparr>]\<rparr>"
  have h1: "1 < length ?strs" by simp
  have h2: "JSON_parse (?strs ! 1) = Inr (JObject [(''type'', JString ''AdaptiveCard'')])" by code_simp
  have h3: "user ?e = Some \<lparr>message = Some (example_context ''c'')\<rparr>" by simp
  have h4: "message \<lparr>message = Some (example_context ''c'')\<rparr> = Some (example_context ''c'')" by simp
  have h5: "conversationReferences ?w (channel_id (channel (channelData example_room)))
              = Some (FromConversation \<lparr>conversation_id = ''c''\<rparr>)"
    by (simp add: example_room_def)
  have h6: "continueConversation (example_client id (\<lambda>n. False)) (calls ?w)
              (FromConversation \<lparr>conversation_id = ''c''\<rparr>) = Inr (example_context ''c'')"
    by (simp add: example_client_def)
  have l: "length (calls ?w) = 0" by (simp add: example_world_def)
  from json_delivered_as_card[OF h1 h2, of ?e "\<lparr>message = Some (example_context ''c'')\<rparr>"
      "example_context ''c''" "example_client id (\<lambda>n. False)" example_config ?w example_room
      "FromConversation \<lparr>conversation_id = ''c''\<rparr>"]
    h3 h4 h5 h6
  have "calls (snd (send (example_client id (\<lambda>n. False)) example_config ?e ?strs ?w)) ! 1
          = SendActivity (example_context ''c'') (AttachmentsActivity
              [\<lparr>contentType = ''application/vnd.microsoft.card.adaptive'',
                content = JObject [(''type'', JString ''AdaptiveCard'')]\<rparr>])
        \<and> calls (snd (reply (example_client id (\<lambda>n. False)) ?e ?strs ?w)) ! 1
          = SendActivity (example_context ''c'') (AttachmentsActivity
              [\<lparr>contentType = ''application/vnd.microsoft.card.adaptive'',
                content = JObject [(''type'', JString ''AdaptiveCard'')]\<rparr>])
        \<and> calls (snd (sendToRoom (example_client id (\<lambda>n. False)) example_config example_room ?strs ?w)) ! 2
          = SendActivity (example_context ''c'') (AttachmentsActivity
              [\<lparr>contentType = ''application/vnd.microsoft.card.adaptive'',
                content = JObject [(''type'', JString ''AdaptiveCard'')]\<rparr>])"
    unfolding l by (simp add: numeral_2_eq_2)
  moreover
  from json_delivered_as_card[OF h1 h2, of "\<lparr>room = Some example_room, user = None\<rparr>" _
      "example_context ''c''" "example_client id (\<lambda>n. False)" example_config ?w example_room
      "FromConversation \<lparr>conversation_id = ''c''\<rparr>"]
    h5 h6
  have "calls (snd (send (example_client id (\<lambda>n. False)) example_config
                   \<lparr>room = Some example_room, user = None\<rparr> ?strs ?w)) ! 2
          = SendActivity (example_context ''c'') (AttachmentsActivity
              [\<lparr>contentType = ''application/vnd.microsoft.card.adaptive'',
                content = JObject [(''type'', JString ''AdaptiveCard'')]\<rparr>])"
    unfolding l by (simp add: numeral_2_eq_2)
  ultimately show ?thesis using h1 h2 h3 h4 h5 h6 by blast
qed

text \<open>
  Claim C2. A string that does not parse as JSON is submitted as a text activity carrying
  the string, in XML format exactly when the string contains \<open></\<close>, then code units none of
  which is a line terminator, then \<open>>\<close>, and in markdown format otherwise.
\<close>

theorem text_format_by_closing_tag:
  assumes "i < length strings" and "JSON_parse (strings ! i) = Inl err"
  shows "calls (snd (sendWithDelegate cl (Some ctx) e strings w)) ! (length (calls w) + i) =
           SendActivity ctx (MessageActivity
             \<lparr>msg_text = strings ! i,
              msg_speak = (if strings ! i = [] then None else Some (strings ! i)),
              textFormat = Some (if (\<exists>a m b. strings ! i = a @ ''</'' @ m @ ''>'' @ b
                                        \<and> (\<forall>c\<in>set m. \<not> line_terminator c))
                                 then Xml else Markdown)\<rparr>)
       \<and> (conversationReferences w (channel_id (channel (channelData rm))) = Some ref
            \<and> continueConversation cl (calls w) ref = Inr ctx \<longrightarrow>
          calls (snd (sendToRoom cl cfg rm strings w)) ! (Suc (length (calls w)) + i) =
           SendActivity ctx (MessageActivity
             \<lparr>msg_text = strings ! i,
              msg_speak = (if strings ! i = [] then None else Some (strings ! i)),
              textFormat = Some (if (\<exists>a m b. strings ! i = a @ ''</'' @ m @ ''>'' @ b
                                        \<and> (\<forall>c\<in>set m. \<not> line_terminator c))
                                 then Xml else Markdown)\<rparr>))"
proof -
  have c: "map (SendActivity ctx) (map classified strings) ! i =
             SendActivity ctx (classified (strings ! i))"
    using assms(1) by simp
  have n: "(xs @ ys) ! (length xs + i) = ys ! i" for xs ys :: "platform_call list"
    by simp
  have n1: "(xs @ y # ys) ! Suc (length xs + i) = ys ! i" for xs ys :: "platform_call list" and y
    by (simp add: nth_append)
  have 1: "calls (snd (sendWithDelegate cl (Some ctx) e strings w)) ! (length (calls w) + i) =
             SendActivity ctx (classified (strings ! i))"
    by (simp add: sendWithDelegate_eq n c del: map_map)
  have 2: "calls (snd (sendToRoom cl cfg rm strings w)) ! (Suc (length (calls w)) + i) =
             SendActivity ctx (classified (strings ! i))"
    if "conversationReferences w (channel_id (channel (channelData rm))) = Some ref"
      and "continueConversation cl (calls w) ref = Inr ctx"
    by (simp add: sendToRoom_hit[OF that] n1 c del: map_map)
  show ?thesis
    using 1 2 unfolding classified_unparsed[OF assms(2)] by blast
qed

text \<open>
  The theorem at the strings \<open><b>hi</b>\<close> and \<open>hello\<close>, neither of which is JSON: the first goes
  out as XML, the second as markdown.
\<close>

theorem text_format_by_closing_tag_witness:
  "JSON_parse ''<b>hi</b>'' = Inl SyntaxError \<and> JSON_parse ''hello'' = Inl SyntaxError
   \<and> calls (snd (sendWithDelegate (example_client id (\<lambda>n. False)) (Some (example_context ''c''))
                   \<lparr>room = None, user = None\<rparr> [''<b>hi</b>'', ''hello''] example_world)) ! 0
       = SendActivity (example_context ''c'')
           (MessageActivity \<lparr>msg_text = ''<b>hi</b>'', msg_speak = Some ''<b>hi</b>'', textFormat = Some Xml\<rparr>)
   \<and> calls (snd (sendWithDelegate (example_client id (\<lambda>n. False)) (Some (example_context ''c''))
                   \<lparr>room = None, user = None\<rparr> [''<b>hi</b>'', ''hello''] example_world)) ! 1
       = SendActivity (example_context ''c'')
           (MessageActivity \<lparr>msg_text = ''hello'', msg_speak = Some ''hello'', textFormat = Some Markdown\<rparr>)"
proof -
  let ?strs = "[''<b>hi</b>'', ''hello'']"
  have p0: "JSON_parse (?strs ! 0) = Inl SyntaxError" by code_simp
  have p1: "JSON_parse (?strs ! 1) = Inl SyntaxError" by code_simp
  have t0: "\<exists>a m b. ?strs ! 0 = a @ ''</'' @ m @ ''>'' @ b \<and> (\<forall>c\<in>set m. \<not> line_terminator c)"
    unfolding closing_tag_iff[symmetric] by code_simp
  have t1: "\<not> (\<exists>a m b. ?strs ! 1 = a @ ''</'' @ m @ ''>'' @ b \<and> (\<forall>c\<in>set m. \<not> line_terminator c))"
    unfolding closing_tag_iff[symmetric] by code_simp
  have l: "length (calls example_world) = 0" by (simp add: example_world_def)
  have a0: "calls (snd (sendWithDelegate (example_client id (\<lambda>n. False)) (Some (example_context ''c''))
                   \<lparr>room = None, user = None\<rparr> ?strs example_world)) ! (length (calls example_world) + 0)
       = SendActivity (example_context ''c'')
           (MessageActivity \<lparr>msg_text = ''<b>hi</b>'', msg_speak = Some ''<b>hi</b>'', textFormat = Some Xml\<rparr>)"
    using text_format_by_closing_tag[of 0 ?strs SyntaxError, OF _ p0] t0 by simp
  have a1: "calls (snd (sendWithDelegate (example_client id (\<lambda>n. False)) (Some (example_context ''c''))
                   \<lparr>room = None, user = None\<rparr> ?strs example_world)) ! (length (calls example_world) + 1)
       = SendActivity (example_context ''c'')
           (MessageActivity \<lparr>msg_text = ''hello'', msg_speak = Some ''hello'', textFormat = Some Markdown\<rparr>)"
    using text_format_by_closing_tag[of 1 ?strs SyntaxError, OF _ p1] t1 by simp
  from a0 a1 p0 p1 show ?thesis unfolding l by simp
qed

text \<open>
  Claim C3. \<open>sendWithDelegate\<close>, and \<open>sendToRoom\<close> on a cached conversation that the platform
  resumes, submit every string in order whatever the platform answers to the earlier ones;
  they return the responses of the accepted sends, in order, and each failure only adds a
  line to the log.
\<close>

theorem partial_failure_results:
  "fst (sendWithDelegate cl (Some ctx) e strings w)
     = accepted (outcomes cl ctx (calls w) (map classified strings))
   \<and> calls (snd (sendWithDelegate cl (Some ctx) e strings w))
     = calls w @ map (SendActivity ctx) (map classified strings)
   \<and> logged (snd (sendWithDelegate cl (Some ctx) e strings w))
     = logged w @ concat (map2 attempt_log strings (outcomes cl ctx (calls w) (map classified strings)))
   \<and> (conversationReferences w (channel_id (channel (channelData rm))) = Some ref
        \<and> continueConversation cl (calls w) ref = Inr ctx \<longrightarrow>
      fst (sendToRoom cl cfg rm strings w)
        = Inr (accepted (outcomes cl ctx (calls w @ [ContinueConversation ref]) (map classified strings)))
      \<and> calls (snd (sendToRoom cl cfg rm strings w))
        = calls w @ ContinueConversation ref # map (SendActivity ctx) (map classified strings)
      \<and> logged (snd (sendToRoom cl cfg rm strings w))
        = logged w @ concat (map2 attempt_log strings
            (outcomes cl ctx (calls w @ [ContinueConversation ref]) (map classified strings))))"
  by (simp add: sendWithDelegate_eq sendToRoom_hit del: map_map)

text \<open>
  Three messages on a platform that throws at the second send: the responses to the first
  and the third are returned, and the failure is logged.
\<close>

theorem partial_failure_results_witness:
  "conversationReferences
      (example_world\<lparr>conversationReferences := [''19:general'' \<mapsto> FromConversation \<lparr>conversation_id = ''c''\<rparr>]\<rparr>)
      (channel_id (channel (channelData example_room)))
     = Some (FromConversation \<lparr>conversation_id = ''c''\<rparr>)
   \<and> continueConversation (example_client id (\<lambda>n. n = 1))
        (calls (example_world\<lparr>conversationReferences := [''19:general'' \<mapsto> FromConversation \<lparr>conversation_id = ''c''\<rparr>]\<rparr>))
        (FromConversation \<lparr>conversation_id = ''c''\<rparr>) = Inr (example_context ''c'')
   \<and> outcomes (example_client id (\<lambda>n. n = 1)) (example_context ''c'')
        (calls (example_world\<lparr>conversationReferences := [''19:general'' \<mapsto> FromConversation \<lparr>conversation_id = ''c''\<rparr>]\<rparr>)
           @ [ContinueConversation (FromConversation \<lparr>conversation_id = ''c''\<rparr>)])
        (map classified [''one'', ''two'', ''three''])
     = [Inr (Some (ResourceResponse ''one'')), Inl (ServiceError (Some 500)), Inr (Some (ResourceResponse ''three''))]
   \<and> fst (sendToRoom (example_client id (\<lambda>n. n = 1)) example_config example_room [''one'', ''two'', ''three'']
          (example_world\<lparr>conversationReferences := [''19:general'' \<mapsto> FromConversation \<lparr>conversation_id = ''c''\<rparr>]\<rparr>))
     = Inr [ResourceResponse ''one'', ResourceResponse ''three'']
   \<and> logged (snd (sendToRoom (example_client id (\<lambda>n. n = 1)) example_config example_room
          [''one'', ''two'', ''three'']
          (example_world\<lparr>conversationReferences := [''19:general'' \<mapsto> FromConversation \<lparr>conversation_id = ''c''\<rparr>]\<rparr>)))
     = [NotACard SyntaxError, NotACard SyntaxError, SendFailed (ServiceError (Some 500)), NotACard SyntaxError]"
proof -
  let ?cl = "example_client id (\<lambda>n. n = 1)"
  let ?ref = "FromConversation \<lparr>conversation_id = ''c''\<rparr>"
  let ?w = "example_world\<lparr>conversationReferences := [''19:general'' \<mapsto> ?ref]\<rparr>"
  let ?strs = "[''one'', ''two'', ''three'']"
  have h1: "conversationReferences ?w (channel_id (channel (channelData example_room))) = Some ?ref"
    by (simp add: example_room_def)
  have h2: "continueConversation ?cl (calls ?w) ?ref = Inr (example_context ''c'')"
    by (simp add: example_client_def)
  have o: "outcomes ?cl (example_context ''c'') (calls ?w @ [ContinueConversation ?ref]) (map classified ?strs)
     = [Inr (Some (ResourceResponse ''one'')), Inl (ServiceError (Some 500)), Inr (Some (ResourceResponse ''three''))]"
    by code_simp
  have p: "map JSON_parse ?strs = [Inl SyntaxError, Inl SyntaxError, Inl SyntaxError]"
    by code_simp
  have lw: "logged ?w = []" by (simp add: example_world_def)
  from partial_failure_results[of ?cl "example_context ''c''" _ ?strs ?w example_room ?ref example_config] h1 h2
  have "fst (sendToRoom ?cl example_config example_room ?strs ?w)
          = Inr (accepted (outcomes ?cl (example_context ''c'') (calls ?w @ [ContinueConversation ?ref]) (map classified ?strs)))"
    and "logged (snd (sendToRoom ?cl example_config example_room ?strs ?w))
          = logged ?w @ concat (map2 attempt_log ?strs
              (outcomes ?cl (example_context ''c'') (calls ?w @ [ContinueConversation ?ref]) (map classified ?strs)))"
    by blast+
  then have "fst (sendToRoom ?cl example_config example_room ?strs ?w)
               = Inr [ResourceResponse ''one'', ResourceResponse ''three'']"
    and "logged (snd (sendToRoom ?cl example_config example_room ?strs ?w))
          = [NotACard SyntaxError, NotACard SyntaxError, SendFailed (ServiceError (Some 500)), NotACard SyntaxError]"
    unfolding o lw using p by (simp_all add: attempt_log_def)
  with h1 h2 o show ?thesis by blast
qed

text \<open>
  Claim C4, as amended. Take a room whose channel id finds nothing in the cache: no entry
  of its own and nothing the cache object inherits. \<open>sendToRoom\<close> asks the platform for a
  new conversation seeded with the joined strings. If the creation throws, \<open>sendToRoom\<close>
  throws that error and the cache is as it was. If the platform runs the creation callback,
  an entry is stored under the conversation id the platform assigned, no other entry changes,
  and the joined text is sent into the new conversation; \<open>sendToRoom\<close> throws the error of
  that send if it throws and returns the empty list otherwise. After the callback has run, a
  second \<open>sendToRoom\<close> for the room finds an entry when the assigned id is the room's
  channel id: it throws if the platform's resume throws, and returns the accepted results of
  its sends otherwise, one result when the platform answers the send with one. When the
  assigned id is neither the channel id nor \<open>__proto__\<close>, the second call finds nothing again.
\<close>

theorem new_conversation_then_cached:
  assumes "cache_get cl (conversationReferences w) (channel_id (channel (channelData rm))) = None"
  shows "let key = channel_id (channel (channelData rm));
             req = create_request_of cfg rm strings;
             seed = TextOnly (join [CHR 0x0A] strings);
             w1 = snd (sendToRoom cl cfg rm strings w);
             new_id = conversation_id (conversation (activity tc))
         in cp_activity (conversationParameters req) = MessageFactory_text (join [CHR 0x0A] strings) None
          \<and> (createConversationAsync cl (calls w) req = Inl e \<longrightarrow>
                fst (sendToRoom cl cfg rm strings w) = Inl e
              \<and> calls w1 = calls w @ [CreateConversation req]
              \<and> conversationReferences w1 = conversationReferences w)
          \<and> (createConversationAsync cl (calls w) req = Inr tc \<longrightarrow>
                calls w1 = calls w @ [CreateConversation req, SendActivity tc seed]
              \<and> conversationReferences w1 new_id \<noteq> None
              \<and> (\<forall>k. k \<noteq> new_id \<longrightarrow> conversationReferences w1 k = conversationReferences w k)
              \<and> (sendActivity cl (calls w @ [CreateConversation req]) tc seed = Inl e2 \<longrightarrow>
                    fst (sendToRoom cl cfg rm strings w) = Inl e2)
              \<and> (sendActivity cl (calls w @ [CreateConversation req]) tc seed = Inr r0 \<longrightarrow>
                    fst (sendToRoom cl cfg rm strings w) = Inr [])
              \<and> (new_id = key \<longrightarrow>
                    (\<exists>cached. conversationReferences w1 key = Some cached
                      \<and> (continueConversation cl (calls w1) cached = Inl e3 \<longrightarrow>
                            fst (sendToRoom cl cfg rm [again] w1) = Inl e3)
                      \<and> (continueConversation cl (calls w1) cached = Inr ctx \<longrightarrow>
                            fst (sendToRoom cl cfg rm [again] w1) =
                              Inr (accepted [sendActivity cl (calls w1 @ [ContinueConversation cached]) ctx
                                               (classified again)]))
                      \<and> (continueConversation cl (calls w1) cached = Inr ctx
                          \<and> sendActivity cl (calls w1 @ [ContinueConversation cached]) ctx (classified again)
                              = Inr (Some r) \<longrightarrow>
                            fst (sendToRoom cl cfg rm [again] w1) = Inr [r])))
              \<and> (new_id \<noteq> key \<and> new_id \<noteq> ''__proto__'' \<longrightarrow>
                    cache_get cl (conversationReferences w1) key = None))"
proof -
  let ?key = "channel_id (channel (channelData rm))"
  let ?req = "create_request_of cfg rm strings"
  let ?seed = "TextOnly (join [CHR 0x0A] strings)"
  let ?w1 = "snd (sendToRoom cl cfg rm strings w)"
  let ?new = "conversation_id (conversation (activity tc))"
  let ?cached = "FromConversation (conversation (activity tc))"
  have seeded: "cp_activity (conversationParameters ?req) = MessageFactory_text (join [CHR 0x0A] strings) None"
    by (simp add: create_request_of_def)
  have rejected: "fst (sendToRoom cl cfg rm strings w) = Inl e
              \<and> calls ?w1 = calls w @ [CreateConversation ?req]
              \<and> conversationReferences ?w1 = conversationReferences w"
    if "createConversationAsync cl (calls w) ?req = Inl e"
    using sendToRoom_miss_rejected[OF assms that] by simp
  have created: "calls ?w1 = calls w @ [CreateConversation ?req, SendActivity tc ?seed]
              \<and> conversationReferences ?w1 ?new \<noteq> None
              \<and> (\<forall>k. k \<noteq> ?new \<longrightarrow> conversationReferences ?w1 k = conversationReferences w k)
              \<and> (sendActivity cl (calls w @ [CreateConversation ?req]) tc ?seed = Inl e2 \<longrightarrow>
                    fst (sendToRoom cl cfg rm strings w) = Inl e2)
              \<and> (sendActivity cl (calls w @ [CreateConversation ?req]) tc ?seed = Inr r0 \<longrightarrow>
                    fst (sendToRoom cl cfg rm strings w) = Inr [])"
    if c: "createConversationAsync cl (calls w) ?req = Inr tc"
    using sendToRoom_miss_created[OF assms c] by simp
  have hit: "\<exists>cached. conversationReferences ?w1 ?key = Some cached
                      \<and> (continueConversation cl (calls ?w1) cached = Inl e3 \<longrightarrow>
                            fst (sendToRoom cl cfg rm [again] ?w1) = Inl e3)
                      \<and> (continueConversation cl (calls ?w1) cached = Inr ctx \<longrightarrow>
                            fst (sendToRoom cl cfg rm [again] ?w1) =
                              Inr (accepted [sendActivity cl (calls ?w1 @ [ContinueConversation cached]) ctx
                                               (classified again)]))
                      \<and> (continueConversation cl (calls ?w1) cached = Inr ctx
                          \<and> sendActivity cl (calls ?w1 @ [ContinueConversation cached]) ctx (classified again)
                              = Inr (Some r) \<longrightarrow>
                            fst (sendToRoom cl cfg rm [again] ?w1) = Inr [r])"
    if c: "createConversationAsync cl (calls w) ?req = Inr tc" and k: "?new = ?key"
  proof -
    have own: "conversationReferences ?w1 ?key = Some ?cached"
      using k by (simp add: sendToRoom_miss_created(3)[OF assms c])
    have 1: "fst (sendToRoom cl cfg rm [again] ?w1) = Inl e3"
      if "continueConversation cl (calls ?w1) ?cached = Inl e3"
      using that own by (simp add: sendToRoom_def Let_def cache_get_own)
    have 2: "fst (sendToRoom cl cfg rm [again] ?w1) =
               Inr (accepted [sendActivity cl (calls ?w1 @ [ContinueConversation ?cached]) ctx (classified again)])"
      if "continueConversation cl (calls ?w1) ?cached = Inr ctx"
      using sendToRoom_hit[OF own that, of cfg "[again]"] by simp
    have 3: "fst (sendToRoom cl cfg rm [again] ?w1) = Inr [r]"
      if "continueConversation cl (calls ?w1) ?cached = Inr ctx"
        and "sendActivity cl (calls ?w1 @ [ContinueConversation ?cached]) ctx (classified again) = Inr (Some r)"
      using 2[OF that(1)] that(2) by simp
    show ?thesis using own 1 2 3 by blast
  qed
  have again_miss: "cache_get cl (conversationReferences ?w1) ?key = None"
    if c: "createConversationAsync cl (calls w) ?req = Inr tc"
      and "?new \<noteq> ?key" and "?new \<noteq> ''__proto__''"
    unfolding sendToRoom_miss_created(3)[OF assms c]
    by (rule cache_get_other[OF assms that(2,3)])
  show ?thesis
    unfolding Let_def
    using seeded rejected created hit again_miss by blast
qed

text \<open>
  The theorem on four platforms: one that gives the new conversation the room's channel id
  (the first call returns the empty list, the second one delivered result); one whose
  creation throws and one whose seeding send throws (\<open>sendToRoom\<close> throws the same error);
  one that assigns another id (the channel id finds nothing after the call).
\<close>

theorem new_conversation_then_cached_witness:
  "cache_get (example_client id (\<lambda>n. False)) (conversationReferences example_world)
      (channel_id (channel (channelData example_room))) = None
   \<and> createConversationAsync (example_client id (\<lambda>n. False)) (calls example_world)
         (create_request_of example_config example_room [''hi'']) = Inr (example_context ''19:general'')
   \<and> sendActivity (example_client id (\<lambda>n. False))
         (calls example_world @ [CreateConversation (create_request_of example_config example_room [''hi''])])
         (example_context ''19:general'') (TextOnly (join [CHR 0x0A] [''hi''])) = Inr (Some (ResourceResponse ''hi''))
   \<and> conversation_id (conversation (activity (example_context ''19:general'')))
         = channel_id (channel (channelData example_room))
   \<and> fst (sendToRoom (example_client id (\<lambda>n. False)) example_config example_room [''hi''] example_world) = Inr []
   \<and> fst (sendToRoom (example_client id (\<lambda>n. False)) example_config example_room [''again'']
           (snd (sendToRoom (example_client id (\<lambda>n. False)) example_config example_room [''hi''] example_world)))
         = Inr [ResourceResponse ''again'']
   \<and> createConversationAsync
         ((example_client id (\<lambda>n. False))\<lparr>createConversationAsync := \<lambda>h r. Inl (ServiceError (Some 403))\<rparr>)
         (calls example_world) (create_request_of example_config example_room [''hi''])
         = Inl (ServiceError (Some 403))
   \<and> fst (sendToRoom
           ((example_client id (\<lambda>n. False))\<lparr>createConversationAsync := \<lambda>h r. Inl (ServiceError (Some 403))\<rparr>)
           example_config example_room [''hi''] example_world)
         = Inl (ServiceError (Some 403))
   \<and> sendActivity (example_client id (\<lambda>n. n = 0))
         (calls example_world @ [CreateConversation (create_request_of example_config example_room [''hi''])])
         (example_context ''19:general'') (TextOnly (join [CHR 0x0A] [''hi''])) = Inl (ServiceError (Some 500))
   \<and> fst (sendToRoom (example_client id (\<lambda>n. n = 0)) example_config example_room [''hi''] example_world)
         = Inl (ServiceError (Some 500))
   \<and> conversation_id (conversation (activity (example_context ''19:general;messageid=1'')))
         \<noteq> channel_id (channel (channelData example_room))
   \<and> conversation_id (conversation (activity (example_context ''19:general;messageid=1''))) \<noteq> ''__proto__''
   \<and> cache_get (example_client (\<lambda>c. c @ '';messageid=1'') (\<lambda>n. False))
         (conversationReferences
            (snd (sendToRoom (example_client (\<lambda>c. c @ '';messageid=1'') (\<lambda>n. False)) example_config
                    example_room [''hi''] example_world)))
         (channel_id (channel (channelData example_room))) = None"
proof -
  let ?cl = "example_client id (\<lambda>n. False)"
  let ?bad = "?cl\<lparr>createConversationAsync := \<lambda>h r. Inl (ServiceError (Some 403))\<rparr>"
  let ?deaf = "example_client id (\<lambda>n. n = 0)"
  let ?other = "example_client (\<lambda>c. c @ '';messageid=1'') (\<lambda>n. False)"
  let ?key = "channel_id (channel (channelData example_room))"
  let ?req = "create_request_of example_config example_room [''hi'']"
  let ?tc = "example_context ''19:general''"
  let ?w1 = "snd (sendToRoom ?cl example_config example_room [''hi''] example_world)"
  have m: "cache_get c (conversationReferences example_world) ?key = None" for c
    by (simp add: example_world_def example_room_def cache_get_def Object_prototype_members_def)
  have h2: "createConversationAsync ?cl (calls example_world) ?req = Inr ?tc"
    by code_simp
  have h3: "sendActivity ?cl (calls example_world @ [CreateConversation ?req]) ?tc
              (TextOnly (join [CHR 0x0A] [''hi''])) = Inr (Some (ResourceResponse ''hi''))"
    by code_simp
  have h4: "conversation_id (conversation (activity ?tc)) = ?key"
    by code_simp
  have own: "conversationReferences ?w1 ?key = Some (FromConversation \<lparr>conversation_id = ''19:general''\<rparr>)"
    by code_simp
  have h5: "continueConversation ?cl (calls ?w1) (FromConversation \<lparr>conversation_id = ''19:general''\<rparr>) = Inr ?tc"
    by code_simp
  have h6: "sendActivity ?cl
              (calls ?w1 @ [ContinueConversation (FromConversation \<lparr>conversation_id = ''19:general''\<rparr>)])
              ?tc (classified ''again'') = Inr (Some (ResourceResponse ''again''))"
    by code_simp
  note t = new_conversation_then_cached[where cl = ?cl and cfg = example_config and strings = "[''hi'']"
      and tc = ?tc and ?r0.0 = "Some (ResourceResponse ''hi'')" and ctx = ?tc and again = "''again''"
      and r = "ResourceResponse ''again''", OF m, unfolded Let_def]
  from t h2 h3 have first: "fst (sendToRoom ?cl example_config example_room [''hi''] example_world) = Inr []"
    by blast
  from t h2 h4 obtain cached where c: "conversationReferences ?w1 ?key = Some cached"
    "continueConversation ?cl (calls ?w1) cached = Inr ?tc
       \<and> sendActivity ?cl (calls ?w1 @ [ContinueConversation cached]) ?tc (classified ''again'')
            = Inr (Some (ResourceResponse ''again''))
     \<longrightarrow> fst (sendToRoom ?cl example_config example_room [''again''] ?w1) = Inr [ResourceResponse ''again'']"
    by blast
  from c(1) own have "cached = FromConversation \<lparr>conversation_id = ''19:general''\<rparr>" by simp
  with c(2) h5 h6 have second:
    "fst (sendToRoom ?cl example_config example_room [''again''] ?w1) = Inr [ResourceResponse ''again'']"
    by blast
  have b1: "createConversationAsync ?bad (calls example_world) ?req = Inl (ServiceError (Some 403))"
    by simp
  from new_conversation_then_cached[where cl = ?bad and cfg = example_config and strings = "[''hi'']"
      and e = "ServiceError (Some 403)", OF m, unfolded Let_def] b1
  have rejected: "fst (sendToRoom ?bad example_config example_room [''hi''] example_world)
                    = Inl (ServiceError (Some 403))"
    by blast
  have d1: "createConversationAsync ?deaf (calls example_world) ?req = Inr ?tc"
    by code_simp
  have d2: "sendActivity ?deaf (calls example_world @ [CreateConversation ?req]) ?tc
              (TextOnly (join [CHR 0x0A] [''hi''])) = Inl (ServiceError (Some 500))"
    by code_simp
  from new_conversation_then_cached[where cl = ?deaf and cfg = example_config and strings = "[''hi'']"
      and tc = ?tc and ?e2.0 = "ServiceError (Some 500)", OF m, unfolded Let_def] d1 d2
  have unseeded: "fst (sendToRoom ?deaf example_config example_room [''hi''] example_world)
                    = Inl (ServiceError (Some 500))"
    by blast
  have o1: "createConversationAsync ?other (calls example_world) ?req
              = Inr (example_context ''19:general;messageid=1'')"
    by code_simp
  have o2: "conversation_id (conversation (activity (example_context ''19:general;messageid=1''))) \<noteq> ?key"
    by code_simp
  have o3: "conversation_id (conversation (activity (example_context ''19:general;messageid=1''))) \<noteq> ''__proto__''"
    by code_simp
  from new_conversation_then_cached[where cl = ?other and cfg = example_config and strings = "[''hi'']"
      and tc = "example_context ''19:general;messageid=1''", OF m, unfolded Let_def] o1 o2 o3
  have again_miss: "cache_get ?other
         (conversationReferences (snd (sendToRoom ?other example_config example_room [''hi''] example_world)))
         ?key = None"
    by blast
  show ?thesis
    using m[of ?cl] h2 h3 h4 first second b1 rejected d2 unseeded o2 o3 again_miss by blast
qed

text \<open>
  Claim C4 as it is stated fails in two ways. On a platform that names the new conversation
  after the channel and the message that opened it, the entry is stored under that name, the
  room's channel id still finds nothing, and the second call creates a conversation again
  and returns the empty list. On a platform whose creation throws, or whose seeding send
  throws, the first call does not return the empty list: it throws.
\<close>

theorem new_conversation_then_cached_counterexample:
  "cache_get (example_client (\<lambda>c. c @ '';messageid=1'') (\<lambda>n. False)) (conversationReferences example_world)
      (channel_id (channel (channelData example_room))) = None
   \<and> fst (sendToRoom (example_client (\<lambda>c. c @ '';messageid=1'') (\<lambda>n. False)) example_config example_room
           [''hi''] example_world) = Inr []
   \<and> calls (snd (sendToRoom (example_client (\<lambda>c. c @ '';messageid=1'') (\<lambda>n. False)) example_config
                   example_room [''hi''] example_world)) ! 1
       = SendActivity (example_context ''19:general;messageid=1'') (TextOnly ''hi'')
   \<and> cache_get (example_client (\<lambda>c. c @ '';messageid=1'') (\<lambda>n. False))
        (conversationReferences
           (snd (sendToRoom (example_client (\<lambda>c. c @ '';messageid=1'') (\<lambda>n. False)) example_config
                   example_room [''hi''] example_world)))
        (channel_id (channel (channelData example_room))) = None
   \<and> fst (sendToRoom (example_client (\<lambda>c. c @ '';messageid=1'') (\<lambda>n. False)) example_config example_room
           [''again'']
           (snd (sendToRoom (example_client (\<lambda>c. c @ '';messageid=1'') (\<lambda>n. False)) example_config
                   example_room [''hi''] example_world)))
       = Inr []
   \<and> cache_get
        ((example_client id (\<lambda>n. False))\<lparr>createConversationAsync := \<lambda>h r. Inl (ServiceError (Some 403))\<rparr>)
        (conversationReferences example_world) (channel_id (channel (channelData example_room))) = None
   \<and> fst (sendToRoom
           ((example_client id (\<lambda>n. False))\<lparr>createConversationAsync := \<lambda>h r. Inl (ServiceError (Some 403))\<rparr>)
           example_config example_room [''hi''] example_world)
       = Inl (ServiceError (Some 403))
   \<and> fst (sendToRoom (example_client id (\<lambda>n. n = 0)) example_config example_room [''hi''] example_world)
       = Inl (ServiceError (Some 500))"
  by code_simp

text \<open>
  Claim C5, as amended. For every robot name \<open>r\<close> that is not empty, ends in a word character
  and holds no replacement pattern, and every input string \<open>t\<close>: \<open>ensureMentionPrefix(t, r)\<close>
  returns a string that, trimmed, is \<open>@r\<close> or starts with \<open>@r\<close> followed by a word boundary;
  and when the trimmed input already starts with \<open>@r\<close>, up to letter case and ended by a word
  boundary, the result is \<open>@r\<close> followed by the rest of the trimmed input, unchanged.
\<close>

theorem ensureMentionPrefix_prefixed:
  assumes "r \<noteq> []" and "is_word_char (last r)" and "\<not> has_replacement_pattern r"
  shows "\<exists>out. ensureMentionPrefix (Some t) (Some r) = Inr (Some out)
           \<and> mention_prefixed r out
           \<and> (ci_prefix (CHR ''@'' # r) (trim t) \<and> word_boundary (trim t) (Suc (length r))
                \<longrightarrow> out = CHR ''@'' # r @ drop (Suc (length r)) (trim t))"
proof -
  let ?t = "trim t"
  have e: "ensureMentionPrefix (Some t) (Some r) = Inr (Some (mention_result r ?t))"
    using ensure_char[OF assms(1,3), of "Some t"] by simp
  have "?t = [] \<or> \<not> is_white_space (last ?t)"
    using trim_ends(2)[of t] by blast
  from mention_result_shape[OF assms(1,2) this]
  obtain rest where rest: "mention_result r ?t = CHR ''@'' # r @ rest"
    "rest = [] \<or> (\<not> is_word_char (hd rest) \<and> \<not> is_white_space (last rest))"
    by blast
  have p: "mention_prefixed r (mention_result r ?t)"
    unfolding rest(1) by (rule prefixed_shape(2)[OF assms(1,2) rest(2)])
  have c: "ci_prefix (CHR ''@'' # r) ?t \<and> word_boundary ?t (Suc (length r))
             \<longrightarrow> mention_result r ?t = CHR ''@'' # r @ drop (Suc (length r)) ?t"
    by (auto simp: mention_result_def ci_prefix_def)
  show ?thesis using e p c by blast
qed

text \<open>
  The theorem at the name \<open>Bot\<close> and the input \<open> @BOT do the thing \<close>, whose result is
  \<open>@Bot do the thing\<close>.
\<close>

theorem ensureMentionPrefix_prefixed_witness:
  "''Bot'' \<noteq> [] \<and> is_word_char (last ''Bot'') \<and> \<not> has_replacement_pattern ''Bot''
   \<and> ci_prefix (CHR ''@'' # ''Bot'') (trim '' @BOT do the thing '')
   \<and> word_boundary (trim '' @BOT do the thing '') (Suc (length ''Bot''))
   \<and> ensureMentionPrefix (Some '' @BOT do the thing '') (Some ''Bot'')
        = Inr (Some (CHR ''@'' # ''Bot'' @ drop (Suc (length ''Bot'')) (trim '' @BOT do the thing '')))
   \<and> mention_prefixed ''Bot'' (CHR ''@'' # ''Bot'' @ drop (Suc (length ''Bot'')) (trim '' @BOT do the thing ''))
   \<and> CHR ''@'' # ''Bot'' @ drop (Suc (length ''Bot'')) (trim '' @BOT do the thing '') = ''@Bot do the thing''"
proof -
  have h1: "''Bot'' \<noteq> []" by simp
  have h2: "is_word_char (last ''Bot'')" by code_simp
  have h3: "\<not> has_replacement_pattern ''Bot''" by code_simp
  have h4: "ci_prefix (CHR ''@'' # ''Bot'') (trim '' @BOT do the thing '')" by code_simp
  have h5: "word_boundary (trim '' @BOT do the thing '') (Suc (length ''Bot''))" by code_simp
  have v: "CHR ''@'' # ''Bot'' @ drop (Suc (length ''Bot'')) (trim '' @BOT do the thing '') = ''@Bot do the thing''"
    by code_simp
  from ensureMentionPrefix_prefixed[OF h1 h2 h3, of "'' @BOT do the thing ''"] h4 h5
  have "ensureMentionPrefix (Some '' @BOT do the thing '') (Some ''Bot'')
          = Inr (Some (CHR ''@'' # ''Bot'' @ drop (Suc (length ''Bot'')) (trim '' @BOT do the thing '')))
        \<and> mention_prefixed ''Bot'' (CHR ''@'' # ''Bot'' @ drop (Suc (length ''Bot'')) (trim '' @BOT do the thing ''))"
    by blast
  with h1 h2 h3 h4 h5 v show ?thesis by blast
qed

text \<open>
  Claim C5 as it is stated fails for a name that ends in another character: for the name
  \<open>bot!\<close> and the input \<open>hello\<close> the result is \<open>@bot! hello\<close>, and neither \<open>!\<close> nor the space
  after it is a word character.
\<close>

theorem ensureMentionPrefix_prefixed_counterexample:
  "ensureMentionPrefix (Some ''hello'') (Some ''bot!'') = Inr (Some ''@bot! hello'')
   \<and> trim ''@bot! hello'' = ''@bot! hello''
   \<and> ''@bot! hello'' \<noteq> ''@bot!''
   \<and> \<not> word_boundary ''@bot! hello'' 5
   \<and> \<not> mention_prefixed ''bot!'' ''@bot! hello''"
  by code_simp

text \<open>
  Claim C6, at inputs where the code breaks it. For the robot name \<open>c++\<close> and the input
  \<open>hello\<close> the normalizer returns \<open>@c++ hello\<close>; fed that, it returns \<open>@c++ @c++ hello\<close>: after
  the escaped name the pattern asks for a word boundary, and there is none between \<open>+\<close> and
  a space. The same happens for a name that ends in a letter outside ASCII, here \<open>Jos\<close>
  followed by e with acute accent (code unit E9). For a name that ends in a word character
  the normalizer is idempotent: lemma \<open>ensureMentionPrefix_idempotent_word_names\<close>.
\<close>

theorem mention_prefix_not_idempotent:
  "ensureMentionPrefix (Some ''hello'') (Some ''c++'') = Inr (Some ''@c++ hello'')
   \<and> ensureMentionPrefix (Some ''@c++ hello'') (Some ''c++'') = Inr (Some ''@c++ @c++ hello'')
   \<and> ensureMentionPrefix (Some (''@Jos'' @ [CHR 0xE9] @ '' hello'')) (Some (''Jos'' @ [CHR 0xE9]))
       = Inr (Some (''@Jos'' @ [CHR 0xE9] @ '' @Jos'' @ [CHR 0xE9] @ '' hello''))"
  by code_simp

text \<open>
  Claim C7, as amended. \<open>send\<close> is \<open>sendToRoom\<close> on the room when the envelope has a room and no
  user. When the envelope has a user, \<open>send\<close> classifies each string and submits it on the
  user's turn handle, returns the accepted responses and emits a \<open>send\<close> event with the
  envelope and those responses; without a turn handle every attempt fails and is logged, and
  the event carries the empty list. With neither a room nor a user, \<open>send\<close> throws a
  TypeError and leaves the world as it was.
\<close>

theorem send_routing:
  "(room e = Some rm \<and> user e = None \<longrightarrow> send cl cfg e strings w = sendToRoom cl cfg rm strings w)
   \<and> (user e = Some u \<and> message u = Some ctx \<longrightarrow>
        fst (send cl cfg e strings w) = Inr (accepted (outcomes cl ctx (calls w) (map classified strings)))
        \<and> calls (snd (send cl cfg e strings w)) = calls w @ map (SendActivity ctx) (map classified strings)
        \<and> emitted (snd (send cl cfg e strings w))
            = emitted w @ [SendEvent e (accepted (outcomes cl ctx (calls w) (map classified strings)))])
   \<and> (user e = Some u \<and> message u = None \<longrightarrow>
        fst (send cl cfg e strings w) = Inr []
        \<and> calls (snd (send cl cfg e strings w)) = calls w
        \<and> logged (snd (send cl cfg e strings w))
            = logged w @ concat (map (\<lambda>s. attempt_log s (Inl TypeError)) strings)
        \<and> emitted (snd (send cl cfg e strings w)) = emitted w @ [SendEvent e []])
   \<and> (room e = None \<and> user e = None \<longrightarrow> send cl cfg e strings w = (Inl TypeError, w))"
proof -
  have 1: "send cl cfg e strings w = sendToRoom cl cfg rm strings w"
    if "room e = Some rm" and "user e = None"
    using that by (simp add: send_def)
  have 2: "fst (send cl cfg e strings w) = Inr (accepted (outcomes cl ctx (calls w) (map classified strings)))
        \<and> calls (snd (send cl cfg e strings w)) = calls w @ map (SendActivity ctx) (map classified strings)
        \<and> emitted (snd (send cl cfg e strings w))
            = emitted w @ [SendEvent e (accepted (outcomes cl ctx (calls w) (map classified strings)))]"
    if "user e = Some u" and "message u = Some ctx"
    using that by (simp add: send_direct sendWithDelegate_eq del: map_map)
  have 3: "fst (send cl cfg e strings w) = Inr []
        \<and> calls (snd (send cl cfg e strings w)) = calls w
        \<and> logged (snd (send cl cfg e strings w))
            = logged w @ concat (map (\<lambda>s. attempt_log s (Inl TypeError)) strings)
        \<and> emitted (snd (send cl cfg e strings w)) = emitted w @ [SendEvent e []]"
    if "user e = Some u" and "message u = None"
    using that by (simp add: send_direct sendWithDelegate_undefined)
  have 4: "send cl cfg e strings w = (Inl TypeError, w)"
    if "room e = None" and "user e = None"
    using that by (simp add: send_def)
  show ?thesis using 1 2 3 4 by blast
qed

text \<open>
  The theorem at four envelopes: a room only; a room and a user with a turn handle; a user
  without a turn handle; neither.
\<close>

theorem send_routing_witness:
  "room \<lparr>room = Some example_room, user = None\<rparr> = Some example_room
   \<and> user \<lparr>room = Some example_room, user = None\<rparr> = None
   \<and> send (example_client id (\<lambda>n. False)) example_config \<lparr>room = Some example_room, user = None\<rparr> [''hi'']
        example_world
      = sendToRoom (example_client id (\<lambda>n. False)) example_config example_room [''hi''] example_world
   \<and> user \<lparr>room = Some example_room, user = Some \<lparr>message = Some (example_context ''c'')\<rparr>\<rparr>
        = Some \<lparr>message = Some (example_context ''c'')\<rparr>
   \<and> message \<lparr>message = Some (example_context ''c'')\<rparr> = Some (example_context ''c'')
   \<and> fst (send (example_client id (\<lambda>n. False)) example_config
            \<lparr>room = Some example_room, user = Some \<lparr>message = Some (example_context ''c'')\<rparr>\<rparr> [''hi'']
            example_world)
      = Inr (accepted (outcomes (example_client id (\<lambda>n. False)) (example_context ''c'') (calls example_world)
               (map classified [''hi''])))
   \<and> accepted (outcomes (example_client id (\<lambda>n. False)) (example_context ''c'') (calls example_world)
               (map classified [''hi''])) = [ResourceResponse ''hi'']
   \<and> emitted (snd (send (example_client id (\<lambda>n. False)) example_config
            \<lparr>room = Some example_room, user = Some \<lparr>message = Some (example_context ''c'')\<rparr>\<rparr> [''hi'']
            example_world))
      = emitted example_world @
          [SendEvent \<lparr>room = Some example_room, user = Some \<lparr>message = Some (example_context ''c'')\<rparr>\<rparr>
             (accepted (outcomes (example_client id (\<lambda>n. False)) (example_context ''c'') (calls example_world)
               (map classified [''hi''])))]
   \<and> user \<lparr>room = None, user = Some \<lparr>message = None\<rparr>\<rparr> = Some \<lparr>message = None\<rparr>
   \<and> message \<lparr>message = None\<rparr> = None
   \<and> fst (send (example_client id (\<lambda>n. False)) example_config \<lparr>room = None, user = Some \<lparr>message = None\<rparr>\<rparr>
            [''hi''] example_world) = Inr []
   \<and> room \<lparr>room = None, user = None\<rparr> = None \<and> user \<lparr>room = None, user = None\<rparr> = None
   \<and> send (example_client id (\<lambda>n. False)) example_config \<lparr>room = None, user = None\<rparr> [''hi''] example_world
      = (Inl TypeError, example_world)"
proof -
  let ?cl = "example_client id (\<lambda>n. False)"
  let ?e1 = "\<lparr>room = Some example_room, user = None\<rparr>"
  let ?e2 = "\<lparr>room = Some example_room, user = Some \<lparr>message = Some (example_context ''c'')\<rparr>\<rparr>"
  let ?e3 = "\<lparr>room = None, user = Some \<lparr>message = None\<rparr>\<rparr>"
  let ?e4 = "\<lparr>room = None, user = None\<rparr> :: envelope"
  have a: "accepted (outcomes ?cl (example_context ''c'') (calls example_world) (map classified [''hi'']))
             = [ResourceResponse ''hi'']"
    by code_simp
  have 1: "send ?cl example_config ?e1 [''hi''] example_world
             = sendToRoom ?cl example_config example_room [''hi''] example_world"
    using send_routing[of ?e1 example_room ?cl example_config "[''hi'']" example_world] by simp
  have 2: "fst (send ?cl example_config ?e2 [''hi''] example_world)
             = Inr (accepted (outcomes ?cl (example_context ''c'') (calls example_world) (map classified [''hi''])))
           \<and> emitted (snd (send ?cl example_config ?e2 [''hi''] example_world))
             = emitted example_world @
                 [SendEvent ?e2 (accepted (outcomes ?cl (example_context ''c'') (calls example_world)
                    (map classified [''hi''])))]"
    using send_routing[of ?e2 _ ?cl example_config "[''hi'']" example_world
        "\<lparr>message = Some (example_context ''c'')\<rparr>" "example_context ''c''"] by simp
  have 3: "fst (send ?cl example_config ?e3 [''hi''] example_world) = Inr []"
    using send_routing[of ?e3 _ ?cl example_config "[''hi'']" example_world "\<lparr>message = None\<rparr>"] by simp
  have 4: "send ?cl example_config ?e4 [''hi''] example_world = (Inl TypeError, example_world)"
    using send_routing[of ?e4 _ ?cl example_config "[''hi'']" example_world] by simp
  show ?thesis using a 1 2 3 4 by simp
qed

text \<open>
  Claim C7 as it is stated fails for the envelope with neither a room nor a user: nothing
  is delegated, nothing is delivered and no event is emitted; \<open>send\<close> throws.
\<close>

theorem send_routing_counterexample:
  "room \<lparr>room = None, user = None\<rparr> = None \<and> user \<lparr>room = None, user = None\<rparr> = None
   \<and> fst (send (example_client id (\<lambda>n. False)) example_config \<lparr>room = None, user = None\<rparr> [''hi'']
            example_world) = Inl TypeError
   \<and> calls (snd (send (example_client id (\<lambda>n. False)) example_config \<lparr>room = None, user = None\<rparr> [''hi'']
            example_world)) = []
   \<and> emitted (snd (send (example_client id (\<lambda>n. False)) example_config \<lparr>room = None, user = None\<rparr> [''hi'']
            example_world)) = []"
  by (simp add: send_def example_world_def)

text \<open>
  Claim C8. When the platform hands a turn to the ingress callback, the world the activity
  handler is run on already holds the reference derived from the turn's activity under the
  activity's conversation id; so a handler that sends to the room of that id has the
  platform resume that reference as its first call.
\<close>

theorem reference_cached_before_handler:
  assumes "process cl (calls w) (req\<lparr>body := norm (body req)\<rparr>) = Inr ctx"
  shows "let cid = conversation_id (conversation (activity ctx));
             w2 = w\<lparr>calls := calls w @ [Process (req\<lparr>body := norm (body req)\<rparr>)],
                    conversationReferences := (conversationReferences w)(cid \<mapsto> FromActivity (activity ctx))\<rparr>
         in conversationReferences w2 cid = Some (FromActivity (activity ctx))
          \<and> post_messages cl norm handler req w =
              (case handler ctx w2 of
                 (None, w3) \<Rightarrow> (Some \<lparr>status = 200, sent = ''ok''\<rparr>, w3)
               | (Some err, w3) \<Rightarrow>
                   (Some \<lparr>status = 500, sent = ''service error''\<rparr>, logger (IngressFailed err) w3))
          \<and> (channel_id (channel (channelData rm)) = cid \<longrightarrow>
               take (length (calls w) + 2)
                 (calls (snd (post_messages cl norm
                    (\<lambda>c w'. case sendToRoom cl cfg rm strings w' of
                               (Inl err, w'') \<Rightarrow> (Some err, w'')
                             | (Inr rs, w'') \<Rightarrow> (None, w''))
                    req w)))
               = calls w @ [Process (req\<lparr>body := norm (body req)\<rparr>),
                            ContinueConversation (FromActivity (activity ctx))])"
proof -
  let ?cid = "conversation_id (conversation (activity ctx))"
  let ?req = "req\<lparr>body := norm (body req)\<rparr>"
  let ?w2 = "w\<lparr>calls := calls w @ [Process ?req],
               conversationReferences := (conversationReferences w)(?cid \<mapsto> FromActivity (activity ctx))\<rparr>"
  let ?h = "\<lambda>c w'. case sendToRoom cl cfg rm strings w' of
                      (Inl err, w'') \<Rightarrow> (Some err, w'')
                    | (Inr rs, w'') \<Rightarrow> (None :: js_error option, w'')"
  have a: "conversationReferences ?w2 ?cid = Some (FromActivity (activity ctx))" by simp
  have c: "take (length (calls w) + 2) (calls (snd (post_messages cl norm ?h req w)))
             = calls w @ [Process ?req, ContinueConversation (FromActivity (activity ctx))]"
    if cid: "channel_id (channel (channelData rm)) = ?cid"
  proof -
    have hit: "conversationReferences ?w2 (channel_id (channel (channelData rm)))
                 = Some (FromActivity (activity ctx))"
      using cid by simp
    have t: "take (Suc (length (calls ?w2))) (calls (snd (sendToRoom cl cfg rm strings ?w2)))
               = calls ?w2 @ [ContinueConversation (FromActivity (activity ctx))]"
      by (rule sendToRoom_resumes[OF hit])
    have "calls (snd (post_messages cl norm ?h req w)) = calls (snd (sendToRoom cl cfg rm strings ?w2))"
      unfolding post_messages_turn[where norm = norm and req = req, OF assms]
      by (cases "sendToRoom cl cfg rm strings ?w2"; cases "fst (sendToRoom cl cfg rm strings ?w2)")
         simp_all
    then show ?thesis using t by simp
  qed
  show ?thesis
    unfolding Let_def using a post_messages_turn[where norm = norm and req = req and handler = handler, OF assms] c by blast
qed

text \<open>
  An inbound activity of the conversation \<open>19:general\<close> and a handler that answers into the
  room of that id.
\<close>

theorem reference_cached_before_handler_witness:
  "process (example_client id (\<lambda>n. False)) (calls example_world) (example_request\<lparr>body := id (body example_request)\<rparr>)
     = Inr \<lparr>activity = body example_request\<rparr>
   \<and> channel_id (channel (channelData example_room))
     = conversation_id (conversation (activity \<lparr>activity = body example_request\<rparr>))
   \<and> conversationReferences
        (example_world\<lparr>calls := calls example_world @ [Process (example_request\<lparr>body := id (body example_request)\<rparr>)],
           conversationReferences := (conversationReferences example_world)
             (conversation_id (conversation (activity \<lparr>activity = body example_request\<rparr>))
                \<mapsto> FromActivity (activity \<lparr>activity = body example_request\<rparr>))\<rparr>)
        (conversation_id (conversation (activity \<lparr>activity = body example_request\<rparr>)))
     = Some (FromActivity (activity \<lparr>activity = body example_request\<rparr>))
   \<and> take (length (calls example_world) + 2)
        (calls (snd (post_messages (example_client id (\<lambda>n. False)) id
           (\<lambda>c w'. case sendToRoom (example_client id (\<lambda>n. False)) example_config example_room [''pong''] w' of
                      (Inl err, w'') \<Rightarrow> (Some err, w'')
                    | (Inr rs, w'') \<Rightarrow> (None, w''))
           example_request example_world)))
     = calls example_world @ [Process (example_request\<lparr>body := id (body example_request)\<rparr>),
                              ContinueConversation (FromActivity (activity \<lparr>activity = body example_request\<rparr>))]"
proof -
  let ?cl = "example_client id (\<lambda>n. False)"
  have h1: "process ?cl (calls example_world) (example_request\<lparr>body := id (body example_request)\<rparr>)
              = Inr \<lparr>activity = body example_request\<rparr>"
    by (simp add: example_client_def)
  have h2: "channel_id (channel (channelData example_room))
              = conversation_id (conversation (activity \<lparr>activity = body example_request\<rparr>))"
    by (simp add: example_room_def example_request_def)
  from reference_cached_before_handler[where norm = id and req = example_request and rm = example_room
      and cfg = example_config and strings = "[''pong'']", OF h1] h2
  show ?thesis
    unfolding Let_def using h1 by blast
qed

text \<open>
  Claim C9. The endpoint answers 200 \<open>ok\<close> when the turn runs and the activity handler
  returns, and 500 \<open>service error\<close>, after logging the error, when the handler throws or the
  platform's processing throws before the turn.
\<close>

theorem ingress_status:
  "let req1 = req\<lparr>body := norm (body req)\<rparr>
   in (process cl (calls w) req1 = Inr ctx
        \<and> fst (handler ctx
                 (w\<lparr>calls := calls w @ [Process req1],
                    conversationReferences :=
                      (conversationReferences w)
                        (conversation_id (conversation (activity ctx)) \<mapsto> FromActivity (activity ctx))\<rparr>))
            = None
        \<longrightarrow> fst (post_messages cl norm handler req w) = Some \<lparr>status = 200, sent = ''ok''\<rparr>)
    \<and> (process cl (calls w) req1 = Inr ctx
        \<and> fst (handler ctx
                 (w\<lparr>calls := calls w @ [Process req1],
                    conversationReferences :=
                      (conversationReferences w)
                        (conversation_id (conversation (activity ctx)) \<mapsto> FromActivity (activity ctx))\<rparr>))
            = Some err
        \<longrightarrow> fst (post_messages cl norm handler req w) = Some \<lparr>status = 500, sent = ''service error''\<rparr>
          \<and> last (logged (snd (post_messages cl norm handler req w))) = IngressFailed err)
    \<and> (process cl (calls w) req1 = Inl err
        \<longrightarrow> fst (post_messages cl norm handler req w) = Some \<lparr>status = 500, sent = ''service error''\<rparr>
          \<and> logged (snd (post_messages cl norm handler req w)) = logged w @ [IngressFailed err])"
proof -
  let ?req = "req\<lparr>body := norm (body req)\<rparr>"
  let ?w2 = "w\<lparr>calls := calls w @ [Process ?req],
               conversationReferences :=
                 (conversationReferences w)
                   (conversation_id (conversation (activity ctx)) \<mapsto> FromActivity (activity ctx))\<rparr>"
  have 1: "fst (post_messages cl norm handler req w) = Some \<lparr>status = 200, sent = ''ok''\<rparr>"
    if p: "process cl (calls w) ?req = Inr ctx" and h: "fst (handler ctx ?w2) = None"
    unfolding post_messages_turn[where norm = norm and req = req, OF p] using h by (cases "handler ctx ?w2") simp
  have 2: "fst (post_messages cl norm handler req w) = Some \<lparr>status = 500, sent = ''service error''\<rparr>
           \<and> last (logged (snd (post_messages cl norm handler req w))) = IngressFailed err"
    if p: "process cl (calls w) ?req = Inr ctx" and h: "fst (handler ctx ?w2) = Some err"
    unfolding post_messages_turn[where norm = norm and req = req, OF p] using h by (cases "handler ctx ?w2") simp
  have 3: "fst (post_messages cl norm handler req w) = Some \<lparr>status = 500, sent = ''service error''\<rparr>
           \<and> logged (snd (post_messages cl norm handler req w)) = logged w @ [IngressFailed err]"
    if p: "process cl (calls w) ?req = Inl err"
    unfolding post_messages_rejected[where norm = norm and req = req, OF p] by simp
  show ?thesis unfolding Let_def using 1 2 3 by blast
qed

text \<open>
  The three cases: a handler that returns, a handler that throws, and a platform whose
  \<open>process\<close> throws.
\<close>

theorem ingress_status_witness:
  "process (example_client id (\<lambda>n. False)) (calls example_world) (example_request\<lparr>body := id (body example_request)\<rparr>)
     = Inr \<lparr>activity = body example_request\<rparr>
   \<and> fst (post_messages (example_client id (\<lambda>n. False)) id (\<lambda>c w. (None, w)) example_request example_world)
     = Some \<lparr>status = 200, sent = ''ok''\<rparr>
   \<and> fst (post_messages (example_client id (\<lambda>n. False)) id (\<lambda>c w. (Some TypeError, w)) example_request
          example_world)
     = Some \<lparr>status = 500, sent = ''service error''\<rparr>
   \<and> process ((example_client id (\<lambda>n. False))\<lparr>process := \<lambda>h r. Inl (ServiceError (Some 401))\<rparr>)
        (calls example_world) (example_request\<lparr>body := id (body example_request)\<rparr>)
     = Inl (ServiceError (Some 401))
   \<and> fst (post_messages ((example_client id (\<lambda>n. False))\<lparr>process := \<lambda>h r. Inl (ServiceError (Some 401))\<rparr>) id
          (\<lambda>c w. (None, w)) example_request example_world)
     = Some \<lparr>status = 500, sent = ''service error''\<rparr>"
proof -
  let ?cl = "example_client id (\<lambda>n. False)"
  let ?bad = "?cl\<lparr>process := \<lambda>h r. Inl (ServiceError (Some 401))\<rparr>"
  let ?req = "example_request\<lparr>body := id (body example_request)\<rparr>"
  have h1: "process ?cl (calls example_world) ?req = Inr \<lparr>activity = body example_request\<rparr>"
    by (simp add: example_client_def)
  have h2: "process ?bad (calls example_world) ?req = Inl (ServiceError (Some 401))"
    by simp
  have 1: "fst (post_messages ?cl id (\<lambda>c w. (None, w)) example_request example_world)
             = Some \<lparr>status = 200, sent = ''ok''\<rparr>"
    using ingress_status[where cl = ?cl and norm = id and req = example_request and w = example_world
        and handler = "\<lambda>c w. (None, w)" and ctx = "\<lparr>activity = body example_request\<rparr>"] h1
    unfolding Let_def by simp
  have 2: "fst (post_messages ?cl id (\<lambda>c w. (Some TypeError, w)) example_request example_world)
             = Some \<lparr>status = 500, sent = ''service error''\<rparr>"
    using ingress_status[where cl = ?cl and norm = id and req = example_request and w = example_world
        and handler = "\<lambda>c w. (Some TypeError, w)" and ctx = "\<lparr>activity = body example_request\<rparr>"
        and err = TypeError] h1
    unfolding Let_def by simp
  have 3: "fst (post_messages ?bad id (\<lambda>c w. (None, w)) example_request example_world)
             = Some \<lparr>status = 500, sent = ''service error''\<rparr>"
    using ingress_status[where cl = ?bad and norm = id and req = example_request and w = example_world
        and handler = "\<lambda>c w. (None, w)" and err = "ServiceError (Some 401)"] h2
    unfolding Let_def by simp
  show ?thesis using h1 h2 1 2 3 by blast
qed

text \<open>
  Claim C10, as amended. \<open>reply\<close> throws a TypeError, before any delivery or event, when the
  envelope has no user. When the user has no turn handle \<open>reply\<close> does not throw: every
  attempt fails inside the loop and is logged, nothing reaches the platform, and \<open>reply\<close>
  emits its event and returns the empty list.
\<close>

theorem reply_without_turn_handle:
  "(user e = None \<longrightarrow> reply cl e strings w = (Inl TypeError, w))
   \<and> (user e = Some u \<and> message u = None \<longrightarrow>
        fst (reply cl e strings w) = Inr []
        \<and> calls (snd (reply cl e strings w)) = calls w
        \<and> logged (snd (reply cl e strings w))
            = logged w @ concat (map (\<lambda>s. attempt_log s (Inl TypeError)) strings)
        \<and> emitted (snd (reply cl e strings w)) = emitted w @ [ReplyEvent e []])"
proof -
  have 1: "reply cl e strings w = (Inl TypeError, w)" if "user e = None"
    using that by (simp add: reply_def)
  have 2: "fst (reply cl e strings w) = Inr []
        \<and> calls (snd (reply cl e strings w)) = calls w
        \<and> logged (snd (reply cl e strings w))
            = logged w @ concat (map (\<lambda>s. attempt_log s (Inl TypeError)) strings)
        \<and> emitted (snd (reply cl e strings w)) = emitted w @ [ReplyEvent e []]"
    if "user e = Some u" and "message u = None"
    using that by (simp add: reply_direct sendWithDelegate_undefined)
  show ?thesis using 1 2 by blast
qed

text \<open>
  The theorem at a room-only envelope and at an envelope whose user has no turn handle.
\<close>

theorem reply_without_turn_handle_witness:
  "user \<lparr>room = Some example_room, user = None\<rparr> = None
   \<and> reply (example_client id (\<lambda>n. False)) \<lparr>room = Some example_room, user = None\<rparr> [''hi''] example_world
        = (Inl TypeError, example_world)
   \<and> user \<lparr>room = None, user = Some \<lparr>message = None\<rparr>\<rparr> = Some \<lparr>message = None\<rparr>
   \<and> message \<lparr>message = None\<rparr> = None
   \<and> fst (reply (example_client id (\<lambda>n. False)) \<lparr>room = None, user = Some \<lparr>message = None\<rparr>\<rparr> [''hi'']
            example_world) = Inr []
   \<and> calls (snd (reply (example_client id (\<lambda>n. False)) \<lparr>room = None, user = Some \<lparr>message = None\<rparr>\<rparr>
            [''hi''] example_world)) = calls example_world"
proof -
  let ?cl = "example_client id (\<lambda>n. False)"
  have 1: "reply ?cl \<lparr>room = Some example_room, user = None\<rparr> [''hi''] example_world
             = (Inl TypeError, example_world)"
    using reply_without_turn_handle[of "\<lparr>room = Some example_room, user = None\<rparr>" ?cl "[''hi'']" example_world]
    by simp
  have 2: "fst (reply ?cl \<lparr>room = None, user = Some \<lparr>message = None\<rparr>\<rparr> [''hi''] example_world) = Inr []
           \<and> calls (snd (reply ?cl \<lparr>room = None, user = Some \<lparr>message = None\<rparr>\<rparr> [''hi''] example_world))
               = calls example_world"
    using reply_without_turn_handle[of "\<lparr>room = None, user = Some \<lparr>message = None\<rparr>\<rparr>" ?cl "[''hi'']"
        example_world "\<lparr>message = None\<rparr>"]
    by simp
  show ?thesis using 1 2 by simp
qed

text \<open>
  Claim C10 as it is stated fails for a user without a turn handle: \<open>reply\<close> returns the
  empty list, having logged the failed attempt and emitted the \<open>reply\<close> event.
\<close>

theorem reply_without_turn_handle_counterexample:
  "user \<lparr>room = None, user = Some \<lparr>message = None\<rparr>\<rparr> = Some \<lparr>message = None\<rparr>
   \<and> message \<lparr>message = None\<rparr> = None
   \<and> fst (reply (example_client id (\<lambda>n. False)) \<lparr>room = None, user = Some \<lparr>message = None\<rparr>\<rparr> [''hi'']
            example_world) = Inr []
   \<and> logged (snd (reply (example_client id (\<lambda>n. False)) \<lparr>room = None, user = Some \<lparr>message = None\<rparr>\<rparr>
            [''hi''] example_world)) = [NotACard SyntaxError, SendFailed TypeError]
   \<and> emitted (snd (reply (example_client id (\<lambda>n. False)) \<lparr>room = None, user = Some \<lparr>message = None\<rparr>\<rparr>
            [''hi''] example_world)) = [ReplyEvent \<lparr>room = None, user = Some \<lparr>message = None\<rparr>\<rparr> []]"
  by code_simp

end
